theory Spec2Isabelle
  imports Main "HOL-Library.Word"
begin

section \<open>Exception backtraces of \<^verbatim>\<open>javaClasses.cpp\<close>\<close>

text \<open>
  A shallow embedding of the backtrace code of
  \<^verbatim>\<open>src/hotspot/share/classfile/javaClasses.cpp\<close>: the \<^verbatim>\<open>BacktraceBuilder\<close>
  (lines 1945-2101), the \<^verbatim>\<open>BacktraceIterator\<close> (2113-2158),
  \<^verbatim>\<open>java_lang_Throwable::fill_in_stack_trace\<close> (2306-2466),
  \<^verbatim>\<open>java_lang_Throwable::get_stack_trace_elements\<close> (2516-2551) and
  \<^verbatim>\<open>java_lang_StackTraceElement::fill_in\<close> (2599-2665).
\<close>

subsection \<open>Values, methods and errors\<close>

type_synonym addr = nat
type_synonym symbol = string

text \<open>An \<^verbatim>\<open>InstanceKlass\<close> and its Java mirror are identified by one number.\<close>

type_synonym klass = nat

text \<open>The Java exceptions that the modelled code posts as pending exception.\<close>

datatype error = OutOfMemoryError | NullPointerException | IndexOutOfBoundsException

text \<open>
  What the code reads from a \<^verbatim>\<open>Method*\<close>: \<^verbatim>\<open>name()\<close>, \<^verbatim>\<open>orig_method_idnum()\<close>
  (a \<^verbatim>\<open>u2\<close>), \<^verbatim>\<open>constants()->version()\<close>, \<^verbatim>\<open>method_holder()\<close> (whose mirror is
  never null, line 2086), \<^verbatim>\<open>is_hidden()\<close> and \<^verbatim>\<open>is_native()\<close>.
\<close>

record Method =
  method_name :: symbol
  orig_method_idnum :: "16 word"
  constants_version :: int
  method_holder :: klass
  is_hidden :: bool
  is_native :: bool

definition SynchronizationEntryBCI :: int where
  "SynchronizationEntryBCI = - 1"

text \<open>
  Modelled from the spec: \<^verbatim>\<open>java_lang_Throwable::trace_chunk_size\<close> is declared in
  \<^verbatim>\<open>javaClasses.hpp\<close>; the spec gives the chunk capacity as the fixed constant 32.
\<close>

definition trace_chunk_size :: int where
  "trace_chunk_size = 32"

text \<open>
  Modelled from the spec: \<^verbatim>\<open>Backtrace::merge_bci_and_version\<close>, \<^verbatim>\<open>Backtrace::bci_at\<close>
  and \<^verbatim>\<open>Backtrace::version_at\<close> are declared in \<^verbatim>\<open>javaClasses.inline.hpp\<close>; the
  spec describes the column entry as a pair packed from a bci and a version of 16 bits
  each, stored in one \<^verbatim>\<open>int\<close>.
\<close>

definition merge_bci_and_version :: "int \<Rightarrow> int \<Rightarrow> 32 word" where
  "merge_bci_and_version bci version =
     word_of_int ((bci mod 65536) * 65536 + version mod 65536)"

definition bci_at :: "32 word \<Rightarrow> int" where
  "bci_at merged = uint merged div 65536"

definition version_at :: "32 word \<Rightarrow> int" where
  "version_at merged = uint merged mod 65536"

subsection \<open>The heap\<close>

text \<open>
  A backtrace chunk is the object array of \<^verbatim>\<open>trace_size\<close> slots that \<^verbatim>\<open>expand\<close>
  allocates: the four columns (slots \<^verbatim>\<open>trace_methods_offset\<close>, \<^verbatim>\<open>trace_bcis_offset\<close>,
  \<^verbatim>\<open>trace_mirrors_offset\<close>, \<^verbatim>\<open>trace_names_offset\<close>), the link to another chunk
  (\<^verbatim>\<open>trace_next_offset\<close>) and the hidden-top-frame marker (\<^verbatim>\<open>trace_hidden_offset\<close>).
  The column arrays are referenced from their chunk only, so the record holds their
  contents; \<open>None\<close> is \<^verbatim>\<open>NULL\<close>.
\<close>

record chunk =
  trace_methods :: "16 word list"
  trace_bcis :: "32 word list"
  trace_mirrors :: "klass option list"
  trace_names :: "symbol option list"
  trace_next :: "addr option"
  trace_hidden :: "addr option"

text \<open>
  The heap holds the chunks and the boxed \<^verbatim>\<open>java.lang.Boolean\<close> objects. Objects are
  allocated at increasing addresses; \<open>allocs_left\<close> is the number of allocations the
  heap can still satisfy, after which an allocation posts \<^verbatim>\<open>OutOfMemoryError\<close>.
\<close>

record heap =
  chunks :: "addr \<rightharpoonup> chunk"
  booleans :: "addr \<rightharpoonup> bool"
  next_free :: addr
  allocs_left :: nat

text \<open>
  A call made with \<^verbatim>\<open>TRAPS\<close> returns a value or leaves a pending exception, and the
  state it worked on (the heap, for the builder) either way. \<open>CHECK r k\<close> is the
  \<^verbatim>\<open>CHECK\<close> macro: return at once when the call left an exception pending, else
  go on with \<open>k\<close>.
\<close>

type_synonym 'a traps = "(error + 'a) \<times> heap"

definition CHECK ::
  "(error + 'a) \<times> 's \<Rightarrow> ('a \<Rightarrow> 's \<Rightarrow> (error + 'b) \<times> 's) \<Rightarrow> (error + 'b) \<times> 's" where
  "CHECK r k = (case r of (Inl e, h) \<Rightarrow> (Inl e, h) | (Inr x, h) \<Rightarrow> k x h)"

text \<open>One allocation of \<^verbatim>\<open>oopFactory\<close> or of \<^verbatim>\<open>java_lang_boxing_object::create\<close>.\<close>

definition allocate :: "heap \<Rightarrow> addr traps" where
  "allocate h =
     (if allocs_left h = 0 then (Inl OutOfMemoryError, h)
      else (Inr (next_free h),
            h\<lparr>next_free := Suc (next_free h), allocs_left := allocs_left h - 1\<rparr>))"

definition obj_at_put :: "addr \<Rightarrow> (chunk \<Rightarrow> chunk) \<Rightarrow> heap \<Rightarrow> heap" where
  "obj_at_put a f h =
     (case chunks h a of
        None \<Rightarrow> h
      | Some c \<Rightarrow> h\<lparr>chunks := (chunks h)(a \<mapsto> f c)\<rparr>)"

subsection \<open>BacktraceBuilder\<close>

text \<open>
  The fields \<^verbatim>\<open>_backtrace\<close>, \<^verbatim>\<open>_head\<close>, \<^verbatim>\<open>_has_hidden_top_frame\<close> and \<^verbatim>\<open>_index\<close>. The
  fields \<^verbatim>\<open>_methods\<close>, \<^verbatim>\<open>_bcis\<close>, \<^verbatim>\<open>_mirrors\<close> and \<^verbatim>\<open>_names\<close> always point at the
  columns of the chunk \<^verbatim>\<open>_head\<close> (both constructors and \<^verbatim>\<open>expand\<close> set them
  together with \<^verbatim>\<open>_head\<close>), so a write through them is a write to that chunk.
\<close>

record BacktraceBuilder =
  bt_backtrace :: "addr option"
  bt_head :: "addr option"
  bt_has_hidden_top_frame :: "addr option"
  bt_index :: int

text \<open>A chunk as freshly allocated: zeroed columns of \<^verbatim>\<open>trace_chunk_size\<close> entries.\<close>

definition new_chunk :: chunk where
  "new_chunk =
     \<lparr>trace_methods = replicate (nat trace_chunk_size) 0,
      trace_bcis = replicate (nat trace_chunk_size) 0,
      trace_mirrors = replicate (nat trace_chunk_size) None,
      trace_names = replicate (nat trace_chunk_size) None,
      trace_next = None,
      trace_hidden = None\<rparr>"

text \<open>
  \<^verbatim>\<open>expand\<close> (lines 2024-2058): five allocations (the chunk and its four columns), then
  the old head, if any, gets the new chunk as its \<^verbatim>\<open>trace_next\<close>, and the new chunk
  becomes \<^verbatim>\<open>_head\<close> with \<^verbatim>\<open>_index\<close> 0.
\<close>

definition expand :: "BacktraceBuilder \<Rightarrow> heap \<Rightarrow> BacktraceBuilder traps" where
  "expand b h =
     (let old_head = bt_head b in
      CHECK (allocate h) (\<lambda>head h.
      CHECK (allocate h) (\<lambda>methods h.
      CHECK (allocate h) (\<lambda>bcis h.
      CHECK (allocate h) (\<lambda>mirrors h.
      CHECK (allocate h) (\<lambda>names h.
        let h = (case old_head of
                   None \<Rightarrow> h
                 | Some old \<Rightarrow> obj_at_put old (\<lambda>c. c\<lparr>trace_next := Some head\<rparr>) h);
            h = h\<lparr>chunks := (chunks h)(head \<mapsto> new_chunk)\<rparr>
        in (Inr (b\<lparr>bt_head := Some head, bt_index := 0\<rparr>), h)))))))"

text \<open>The constructor for a new backtrace (lines 2001-2005).\<close>

definition new_BacktraceBuilder :: "heap \<Rightarrow> BacktraceBuilder traps" where
  "new_BacktraceBuilder h =
     CHECK (expand \<lparr>bt_backtrace = None, bt_head = None,
                    bt_has_hidden_top_frame = None, bt_index = 0\<rparr> h)
       (\<lambda>b h. (Inr (b\<lparr>bt_backtrace := bt_head b, bt_index := 0\<rparr>), h))"

text \<open>The four column writes of \<^verbatim>\<open>push\<close> at \<^verbatim>\<open>_index\<close> (lines 2076-2087).\<close>

definition put_frame :: "int \<Rightarrow> Method \<Rightarrow> int \<Rightarrow> chunk \<Rightarrow> chunk" where
  "put_frame i m bci c =
     c\<lparr>trace_methods := (trace_methods c)[nat i := orig_method_idnum m],
       trace_bcis := (trace_bcis c)[nat i := merge_bci_and_version bci (constants_version m)],
       trace_names := (trace_names c)[nat i := Some (method_name m)],
       trace_mirrors := (trace_mirrors c)[nat i := Some (method_holder m)]\<rparr>"

text \<open>
  \<^verbatim>\<open>push\<close> (lines 2064-2089): the bci \<^verbatim>\<open>-1\<close> is stored as 0; when \<^verbatim>\<open>_index\<close> has
  reached \<^verbatim>\<open>trace_chunk_size\<close> the builder is expanded first; then the frame is
  written at \<^verbatim>\<open>_index\<close> of the head chunk and \<^verbatim>\<open>_index\<close> is incremented. The head is
  never null after either constructor; on a null head the model writes nothing.
\<close>

definition push :: "BacktraceBuilder \<Rightarrow> Method \<Rightarrow> int \<Rightarrow> heap \<Rightarrow> BacktraceBuilder traps" where
  "push b m bci h =
     (let bci = (if bci = SynchronizationEntryBCI then 0 else bci) in
      CHECK (if bt_index b \<ge> trace_chunk_size then expand b h else (Inr b, h)) (\<lambda>b h.
        (Inr (b\<lparr>bt_index := bt_index b + 1\<rparr>),
         (case bt_head b of
            None \<Rightarrow> h
          | Some head \<Rightarrow> obj_at_put head (put_frame (bt_index b) m bci) h))))"

text \<open>
  \<^verbatim>\<open>set_has_hidden_top_frame\<close> (lines 2091-2099): when the marker is still null, a
  \<^verbatim>\<open>java.lang.Boolean(true)\<close> is allocated and stored in the builder and in slot
  \<^verbatim>\<open>trace_hidden_offset\<close> of the head chunk.
\<close>

definition set_has_hidden_top_frame :: "BacktraceBuilder \<Rightarrow> heap \<Rightarrow> BacktraceBuilder traps" where
  "set_has_hidden_top_frame b h =
     (if bt_has_hidden_top_frame b = None then
        CHECK (allocate h) (\<lambda>prim h.
          let h = h\<lparr>booleans := (booleans h)(prim \<mapsto> True)\<rparr>;
              b = b\<lparr>bt_has_hidden_top_frame := Some prim\<rparr>
          in (Inr b,
              (case bt_head b of
                 None \<Rightarrow> h
               | Some head \<Rightarrow> obj_at_put head (\<lambda>c. c\<lparr>trace_hidden := bt_has_hidden_top_frame b\<rparr>) h)))
      else (Inr b, h))"

subsection \<open>BacktraceIterator\<close>

text \<open>
  \<^verbatim>\<open>BacktraceElement\<close> (lines 2103-2111) and the fields \<^verbatim>\<open>_index\<close> and \<^verbatim>\<open>_result\<close> of
  the iterator; its column handles are the columns of the chunk \<^verbatim>\<open>_result\<close>.
\<close>

record BacktraceElement =
  bte_mirror :: "klass option"
  bte_method_id :: int
  bte_version :: int
  bte_bci :: int
  bte_name :: "symbol option"

record BacktraceIterator =
  it_index :: int
  it_result :: "addr option"

text \<open>
  \<^verbatim>\<open>init\<close> (lines 2121-2131): a non-null chunk resets the index; a null one only
  replaces \<^verbatim>\<open>_result\<close>.
\<close>

definition init :: "BacktraceIterator \<Rightarrow> addr option \<Rightarrow> BacktraceIterator" where
  "init it result =
     (if result \<noteq> None then \<lparr>it_index = 0, it_result = result\<rparr>
      else it\<lparr>it_result := None\<rparr>)"

text \<open>
  The constructor (lines 2133-2136). It leaves \<^verbatim>\<open>_index\<close> unset for a null backtrace,
  where no operation reads it before \<^verbatim>\<open>_result\<close>; the model starts it at 0.
\<close>

definition new_BacktraceIterator :: "addr option \<Rightarrow> BacktraceIterator" where
  "new_BacktraceIterator result = init \<lparr>it_index = 0, it_result = None\<rparr> result"

text \<open>\<^verbatim>\<open>repeat\<close> (lines 2155-2157).\<close>

definition repeat :: "heap \<Rightarrow> BacktraceIterator \<Rightarrow> bool" where
  "repeat h it =
     (case it_result it of
        None \<Rightarrow> False
      | Some r \<Rightarrow>
          (case chunks h r of
             None \<Rightarrow> False
           | Some c \<Rightarrow> trace_mirrors c ! nat (it_index it) \<noteq> None))"

text \<open>
  \<^verbatim>\<open>next\<close> (lines 2138-2153): the element at \<^verbatim>\<open>_index\<close>, then \<^verbatim>\<open>_index\<close> is
  incremented, and at \<^verbatim>\<open>trace_chunk_size\<close> the iterator moves to the chunk in slot
  \<^verbatim>\<open>trace_next_offset\<close>. The source calls it only after \<^verbatim>\<open>repeat\<close> returned true;
  without a chunk to read the model returns \<open>None\<close>. The columns of every chunk have
  \<^verbatim>\<open>trace_chunk_size\<close> entries (asserted at line 2135), so the reads are in range.
\<close>

definition element_at :: "chunk \<Rightarrow> int \<Rightarrow> BacktraceElement" where
  "element_at c i =
     \<lparr>bte_mirror = trace_mirrors c ! nat i,
      bte_method_id = uint (trace_methods c ! nat i),
      bte_version = version_at (trace_bcis c ! nat i),
      bte_bci = bci_at (trace_bcis c ! nat i),
      bte_name = trace_names c ! nat i\<rparr>"

definition next_element ::
  "heap \<Rightarrow> BacktraceIterator \<Rightarrow> (BacktraceElement \<times> BacktraceIterator) option" where
  "next_element h it =
     (case it_result it of
        None \<Rightarrow> None
      | Some r \<Rightarrow>
          (case chunks h r of
             None \<Rightarrow> None
           | Some c \<Rightarrow>
               (let e = element_at c (it_index it);
                    it = it\<lparr>it_index := it_index it + 1\<rparr>
                in Some (e, if it_index it \<ge> trace_chunk_size
                            then init it (trace_next c) else it))))"

text \<open>
  The loop \<^verbatim>\<open>while (iter.repeat()) { bte = iter.next(THREAD); ... }\<close> of lines
  2262-2265 and 2533-2550, collecting the elements it visits. On a cyclic chain of
  chunks the loop does not end, and the value is \<open>None\<close>.
\<close>

partial_function (option) elements ::
  "heap \<Rightarrow> BacktraceIterator \<Rightarrow> BacktraceElement list option" where
  "elements h it =
     (if repeat h it then
        (case next_element h it of
           None \<Rightarrow> Some []
         | Some (e, it') \<Rightarrow> Option.bind (elements h it') (\<lambda>es. Some (e # es)))
      else Some [])"

declare elements.simps [code]

subsection \<open>Capture: \<^verbatim>\<open>fill_in_stack_trace\<close>\<close>

text \<open>
  The flags \<^verbatim>\<open>StackTraceInThrowable\<close>, \<^verbatim>\<open>MaxJavaStackTraceDepth\<close> and
  \<^verbatim>\<open>ShowHiddenFrames\<close>.
\<close>

record flags =
  StackTraceInThrowable :: bool
  MaxJavaStackTraceDepth :: int
  ShowHiddenFrames :: bool

text \<open>
  The fields of a \<^verbatim>\<open>java.lang.Throwable\<close> that the code touches, and the classes the
  object is an instance of (its class and all superclasses), which decide
  \<^verbatim>\<open>throwable->is_a(k)\<close>.
\<close>

record throwable =
  klass_hierarchy :: "klass list"
  backtrace :: "addr option"
  depth :: int
  stackTrace :: "addr option"

definition is_a :: "throwable \<Rightarrow> klass \<Rightarrow> bool" where
  "is_a t k = (k \<in> set (klass_hierarchy t))"

definition fillInStackTrace_name :: symbol where
  "fillInStackTrace_name = ''fillInStackTrace''"

definition object_initializer_name :: symbol where
  "object_initializer_name = ''<init>''"

text \<open>
  The frames of the thread as the loop of lines 2352-2390 tells them apart: an
  interpreted frame with its method and bci; a compiled frame of a native method; a
  compiled Java frame, whose debug information at the pc is a chain of scopes (method
  and bci), the innermost first, each holding the decode offset of its sender; and a
  frame whose code blob is null or not compiled. The stack is the list of the frames
  from \<^verbatim>\<open>last_frame()\<close> up to the first frame, for which \<^verbatim>\<open>is_first_frame()\<close>
  holds.
\<close>

datatype frame =
  Interpreted Method int
| Compiled_native Method
| Compiled_java "(Method \<times> int) list"
| Not_compiled

record JavaThread =
  has_last_Java_frame :: bool
  last_frame :: "frame list"
  pending_exception :: "error option"

text \<open>
  The locals of the loop: \<^verbatim>\<open>total_count\<close>, the two flags of the filter and the
  builder \<^verbatim>\<open>bt\<close>.
\<close>

record capture =
  total_count :: int
  skip_fillInStackTrace_check :: bool
  skip_throwableInit_check :: bool
  bt :: BacktraceBuilder

text \<open>
  The body of the loop for a frame with its method and bci (lines 2407-2439). A
  \<^verbatim>\<open>continue\<close> returns the locals as they are.
\<close>

definition filter_and_push ::
  "flags \<Rightarrow> throwable \<Rightarrow> Method \<Rightarrow> int \<Rightarrow> capture \<Rightarrow> heap \<Rightarrow> capture traps" where
  "filter_and_push fl t m bci s h =
     (let skip_hidden = \<not> ShowHiddenFrames fl in
      if \<not> skip_fillInStackTrace_check s \<and>
         method_name m = fillInStackTrace_name \<and> is_a t (method_holder m)
      then (Inr s, h)
      else
        let s = (if \<not> skip_fillInStackTrace_check s
                 then s\<lparr>skip_fillInStackTrace_check := True\<rparr> else s) in
        if \<not> skip_throwableInit_check s \<and>
           method_name m = object_initializer_name \<and> is_a t (method_holder m)
        then (Inr s, h)
        else
          let s = (if \<not> skip_throwableInit_check s
                   then s\<lparr>skip_throwableInit_check := True\<rparr> else s) in
          if is_hidden m \<and> skip_hidden then
            (if total_count s = 0 then
               CHECK (set_has_hidden_top_frame (bt s) h) (\<lambda>b h. (Inr (s\<lparr>bt := b\<rparr>), h))
             else (Inr s, h))
          else
            CHECK (push (bt s) m bci h) (\<lambda>b h.
              (Inr (s\<lparr>bt := b, total_count := total_count s + 1\<rparr>), h)))"

text \<open>
  The loop of lines 2352-2440. \<open>fr\<close> is the rest of the stack and \<open>decode\<close> the
  scopes still to read of a compiled frame (\<^verbatim>\<open>decode_offset != 0\<close> when there is
  one).
\<close>

fun frame_size :: "frame \<Rightarrow> nat" where
  "frame_size (Compiled_java scopes) = Suc (length scopes)"
| "frame_size _ = 1"

function walk ::
  "flags \<Rightarrow> throwable \<Rightarrow> frame list \<Rightarrow> (Method \<times> int) list \<Rightarrow> capture \<Rightarrow> heap \<Rightarrow> capture traps"
where
  "walk fl t fr decode s h =
     (let max_depth = MaxJavaStackTraceDepth fl in
      if max_depth = 0 \<or> max_depth \<noteq> total_count s then
        (case decode of
           (m, bci) # decode \<Rightarrow>
             CHECK (filter_and_push fl t m bci s h) (\<lambda>s h. walk fl t fr decode s h)
         | [] \<Rightarrow>
             (case fr of
                [] \<Rightarrow> (Inr s, h)
              | Interpreted m bci # fr \<Rightarrow>
                  CHECK (filter_and_push fl t m bci s h) (\<lambda>s h. walk fl t fr [] s h)
              | Not_compiled # fr \<Rightarrow> walk fl t fr [] s h
              | Compiled_native m # fr \<Rightarrow>
                  CHECK (filter_and_push fl t m 0 s h) (\<lambda>s h. walk fl t fr [] s h)
              | Compiled_java scopes # fr \<Rightarrow> walk fl t fr scopes s h))
      else (Inr s, h))"
  by pat_completeness auto
termination
  by (relation "measure (\<lambda>(fl, t, fr, decode, s, h). sum_list (map frame_size fr) + length decode)")
    auto

declare walk.simps [simp del]

text \<open>
  \<^verbatim>\<open>fill_in_stack_trace(Handle throwable, const methodHandle& method, TRAPS)\<close>
  (lines 2306-2447). It returns the throwable and the heap, and \<open>Inl e\<close> when it
  returns with the exception \<open>e\<close> pending.
\<close>

definition fill_in_stack_trace_TRAPS ::
  "flags \<Rightarrow> JavaThread \<Rightarrow> throwable \<Rightarrow> Method option \<Rightarrow> heap
     \<Rightarrow> (error + unit) \<times> throwable \<times> heap" where
  "fill_in_stack_trace_TRAPS fl thread t method h =
     (if \<not> StackTraceInThrowable fl then (Inr (), t, h)
      else
        let t = t\<lparr>backtrace := None\<rparr>;
            t = t\<lparr>stackTrace := None\<rparr>;
            max_depth = MaxJavaStackTraceDepth fl
        in case new_BacktraceBuilder h of
             (Inl e, h) \<Rightarrow> (Inl e, t, h)
           | (Inr b, h) \<Rightarrow>
               if \<not> has_last_Java_frame thread then
                 (case method of
                    Some m \<Rightarrow>
                      if max_depth \<ge> 1 then
                        (case push b m 0 h of
                           (Inl e, h) \<Rightarrow> (Inl e, t, h)
                         | (Inr b, h) \<Rightarrow>
                             (Inr (), t\<lparr>depth := 1, backtrace := bt_backtrace b\<rparr>, h))
                      else (Inr (), t, h)
                  | None \<Rightarrow> (Inr (), t, h))
               else
                 (case walk fl t (last_frame thread) []
                         \<lparr>total_count = 0, skip_fillInStackTrace_check = False,
                          skip_throwableInit_check = False, bt = b\<rparr> h of
                    (Inl e, h) \<Rightarrow> (Inl e, t, h)
                  | (Inr s, h) \<Rightarrow>
                      (Inr (), t\<lparr>backtrace := bt_backtrace (bt s), depth := total_count s\<rparr>, h)))"

text \<open>
  \<^verbatim>\<open>fill_in_stack_trace(Handle throwable, const methodHandle& method)\<close> (lines
  2449-2466). \<open>should_fill_in_stack_trace\<close> is the answer of
  \<^verbatim>\<open>Universe::should_fill_in_stack_trace(throwable)\<close>. \<^verbatim>\<open>PRESERVE_EXCEPTION_MARK\<close>
  ("Keep original exception", line 1901) saves and clears the pending exception of
  the thread and restores it when the function returns; \<^verbatim>\<open>CLEAR_PENDING_EXCEPTION\<close>
  drops what the call left pending.
\<close>

definition fill_in_stack_trace ::
  "flags \<Rightarrow> bool \<Rightarrow> JavaThread \<Rightarrow> throwable \<Rightarrow> Method option \<Rightarrow> heap
     \<Rightarrow> JavaThread \<times> throwable \<times> heap" where
  "fill_in_stack_trace fl should_fill_in_stack_trace thread t method h =
     (if \<not> StackTraceInThrowable fl then (thread, t, h)
      else if \<not> should_fill_in_stack_trace then (thread, t, h)
      else
        let preserved = pending_exception thread;
            thread = thread\<lparr>pending_exception := None\<rparr>
        in case fill_in_stack_trace_TRAPS fl thread t method h of
             (r, t, h) \<Rightarrow>
               let thread = (case r of
                               Inl e \<Rightarrow> thread\<lparr>pending_exception := Some e\<rparr>
                             | Inr _ \<Rightarrow> thread);
                   thread = thread\<lparr>pending_exception := None\<rparr>;
                   thread = thread\<lparr>pending_exception := preserved\<rparr>
               in (thread, t, h))"

subsection \<open>Materialization: \<^verbatim>\<open>fill_in\<close> and \<^verbatim>\<open>get_stack_trace_elements\<close>\<close>

text \<open>\<^verbatim>\<open>version_matches\<close> (lines 1937-1940).\<close>

definition version_matches :: "Method option \<Rightarrow> int \<Rightarrow> bool" where
  "version_matches method version =
     (case method of None \<Rightarrow> False | Some m \<Rightarrow> constants_version m = version)"

text \<open>The fields of a \<^verbatim>\<open>java.lang.StackTraceElement\<close>; \<open>None\<close> is \<^verbatim>\<open>null\<close>.\<close>

record StackTraceElement =
  declaringClass :: "string option"
  declaringClassObject :: "klass option"
  classLoaderName :: "string option"
  methodName :: "string option"
  moduleName :: "string option"
  moduleVersion :: "string option"
  fileName :: "string option"
  lineNumber :: int

record ModuleEntry =
  is_named :: bool
  entry_name :: symbol
  entry_version :: "symbol option"

text \<open>
  The services of the VM that materialization calls and whose code is not part of
  this file: \<^verbatim>\<open>java_lang_Class::name\<close> and \<^verbatim>\<open>StringTable::intern\<close> (both may leave
  an exception pending), \<^verbatim>\<open>InstanceKlass::class_loader\<close>,
  \<^verbatim>\<open>java_lang_ClassLoader::name\<close>, \<^verbatim>\<open>InstanceKlass::module\<close>,
  \<^verbatim>\<open>Backtrace::get_source_file_name\<close>, \<^verbatim>\<open>Backtrace::get_line_number\<close> and
  \<^verbatim>\<open>InstanceKlass::method_with_orig_idnum\<close>.
\<close>

record vm =
  java_lang_Class_name :: "klass \<Rightarrow> error + string"
  StringTable_intern :: "symbol \<Rightarrow> error + string"
  class_loader :: "klass \<Rightarrow> nat option"
  java_lang_ClassLoader_name :: "nat \<Rightarrow> string option"
  holder_module :: "klass \<Rightarrow> ModuleEntry"
  get_source_file_name :: "klass \<Rightarrow> int \<Rightarrow> symbol option"
  get_line_number :: "Method \<Rightarrow> int \<Rightarrow> int"
  method_with_orig_idnum :: "klass \<Rightarrow> int \<Rightarrow> int \<Rightarrow> Method option"

text \<open>
  The state of \<^verbatim>\<open>fill_in\<close>: the element it fills and the source file names cached on
  the class mirrors (\<^verbatim>\<open>java_lang_Class::source_file\<close>).
\<close>

type_synonym fill_state = "StackTraceElement \<times> (klass \<rightharpoonup> string)"

text \<open>Class name, loader name, method name and module of \<^verbatim>\<open>fill_in\<close> (lines 2607-2636).\<close>

definition fill_in_names ::
  "vm \<Rightarrow> klass \<Rightarrow> symbol \<Rightarrow> fill_state \<Rightarrow> (error + unit) \<times> fill_state" where
  "fill_in_names v holder name st =
     CHECK (java_lang_Class_name v holder, st) (\<lambda>classname (element, sf).
       let element = element\<lparr>declaringClass := Some classname\<rparr>;
           element = element\<lparr>declaringClassObject := Some holder\<rparr>;
           element =
             (case class_loader v holder of
                None \<Rightarrow> element
              | Some loader \<Rightarrow>
                  (case java_lang_ClassLoader_name v loader of
                     None \<Rightarrow> element
                   | Some loader_name \<Rightarrow> element\<lparr>classLoaderName := Some loader_name\<rparr>))
       in CHECK (StringTable_intern v name, (element, sf)) (\<lambda>methodname (element, sf).
            let element = element\<lparr>methodName := Some methodname\<rparr>;
                m = holder_module v holder
            in if is_named m then
                 CHECK (StringTable_intern v (entry_name m), (element, sf))
                   (\<lambda>mname (element, sf).
                      let element = element\<lparr>moduleName := Some mname\<rparr> in
                      (case entry_version m of
                         Some mv \<Rightarrow>
                           CHECK (StringTable_intern v mv, (element, sf)) (\<lambda>mversion (element, sf).
                             (Inr (), (element\<lparr>moduleVersion := Some mversion\<rparr>, sf)))
                       | None \<Rightarrow> (Inr (), (element\<lparr>moduleVersion := None\<rparr>, sf))))
               else (Inr (), (element, sf))))"

text \<open>File name and line number of \<^verbatim>\<open>fill_in\<close> (lines 2638-2664).\<close>

definition fill_in_source ::
  "vm \<Rightarrow> klass \<Rightarrow> Method option \<Rightarrow> int \<Rightarrow> int \<Rightarrow> fill_state \<Rightarrow> (error + unit) \<times> fill_state" where
  "fill_in_source v holder method version bci st =
     (case st of (element, sf) \<Rightarrow>
        (case method of
           Some m \<Rightarrow>
             if \<not> version_matches method version then
               (Inr (), (element\<lparr>fileName := None, lineNumber := - 1\<rparr>, sf))
             else
               let source = get_source_file_name v holder version;
                   source_file = sf holder
               in CHECK
                    (case source of
                       Some src \<Rightarrow>
                         (case source_file of
                            None \<Rightarrow>
                              CHECK (StringTable_intern v src, (element, sf)) (\<lambda>str (element, sf).
                                (Inr (Some str), (element, sf(holder \<mapsto> str))))
                          | Some _ \<Rightarrow> (Inr source_file, (element, sf)))
                     | None \<Rightarrow>
                         (case source_file of
                            Some _ \<Rightarrow> (Inr None, (element, sf(holder := None)))
                          | None \<Rightarrow> (Inr source_file, (element, sf))))
                    (\<lambda>source_file (element, sf).
                       (Inr (), (element\<lparr>fileName := source_file,
                                         lineNumber := get_line_number v m bci\<rparr>, sf)))
         | None \<Rightarrow> (Inr (), (element\<lparr>fileName := None, lineNumber := - 1\<rparr>, sf))))"

text \<open>\<^verbatim>\<open>java_lang_StackTraceElement::fill_in\<close> (lines 2599-2665).\<close>

definition fill_in ::
  "vm \<Rightarrow> klass \<Rightarrow> Method option \<Rightarrow> int \<Rightarrow> int \<Rightarrow> symbol \<Rightarrow> fill_state
     \<Rightarrow> (error + unit) \<times> fill_state" where
  "fill_in v holder method version bci name st =
     CHECK (fill_in_names v holder name st) (\<lambda>_ st.
       fill_in_source v holder method version bci st)"

text \<open>
  The loop of \<^verbatim>\<open>get_stack_trace_elements\<close> (lines 2532-2550) over the destination
  array and the cache of source file names. The value is \<open>None\<close> when the loop does
  not end, and where the source reads past the end of the array or through a null
  mirror or name, which it takes never to happen.
\<close>

partial_function (option) fill_elements ::
  "vm \<Rightarrow> heap \<Rightarrow> BacktraceIterator \<Rightarrow> nat
     \<Rightarrow> StackTraceElement option list \<times> (klass \<rightharpoonup> string)
     \<Rightarrow> ((error + unit) \<times> StackTraceElement option list \<times> (klass \<rightharpoonup> string)) option" where
  "fill_elements v h iter index st =
     (if repeat h iter then
        (case next_element h iter of
           None \<Rightarrow> None
         | Some (bte, iter) \<Rightarrow>
             (case st of (array, sf) \<Rightarrow>
                if index \<ge> length array then None
                else
                  (case array ! index of
                     None \<Rightarrow> Some (Inl NullPointerException, st)
                   | Some element \<Rightarrow>
                       (case (bte_mirror bte, bte_name bte) of
                          (Some holder, Some name) \<Rightarrow>
                            (case fill_in v holder
                                    (method_with_orig_idnum v holder (bte_method_id bte) (bte_version bte))
                                    (bte_version bte) (bte_bci bte) name (element, sf) of
                               (Inl e, (element, sf)) \<Rightarrow>
                                 Some (Inl e, (array[index := Some element], sf))
                             | (Inr _, (element, sf)) \<Rightarrow>
                                 fill_elements v h iter (Suc index)
                                   (array[index := Some element], sf))
                        | _ \<Rightarrow> None))))
      else Some (Inr (), st))"

declare fill_elements.simps [code]

text \<open>
  \<^verbatim>\<open>java_lang_Throwable::get_stack_trace_elements\<close> (lines 2516-2551); \<open>None\<close> for a
  handle is the null handle.
\<close>

definition get_stack_trace_elements ::
  "vm \<Rightarrow> heap \<Rightarrow> throwable option \<Rightarrow> StackTraceElement option list option \<Rightarrow> (klass \<rightharpoonup> string)
     \<Rightarrow> ((error + unit) \<times> StackTraceElement option list option \<times> (klass \<rightharpoonup> string)) option" where
  "get_stack_trace_elements v h throwable stack_trace_array_h sf =
     (case (throwable, stack_trace_array_h) of
        (Some t, Some array) \<Rightarrow>
          if int (length array) \<noteq> depth t then
            Some (Inl IndexOutOfBoundsException, (stack_trace_array_h, sf))
          else
            map_option (\<lambda>(r, (array, sf)). (r, (Some array, sf)))
              (fill_elements v h (new_BacktraceIterator (backtrace t)) 0 (array, sf))
      | _ \<Rightarrow> Some (Inl NullPointerException, (stack_trace_array_h, sf)))"

section \<open>The store that a builder has built\<close>

text \<open>Every chunk of the heap lies below the next free address.\<close>

definition heap_ok :: "heap \<Rightarrow> bool" where
  "heap_ok h = (\<forall>a. next_free h \<le> a \<longrightarrow> chunks h a = None)"

text \<open>
  The element that iteration yields for a frame that was pushed with a method and a
  bci: mirror, method id and name of the method, and the version and the bci read back
  from the packed column entry (the bci \<open>-1\<close> having been stored as 0).
\<close>

definition element_of :: "Method \<times> int \<Rightarrow> BacktraceElement" where
  "element_of f =
     (case f of (m, bci) \<Rightarrow>
        let merged = merge_bci_and_version
                       (if bci = SynchronizationEntryBCI then 0 else bci) (constants_version m)
        in \<lparr>bte_mirror = Some (method_holder m),
            bte_method_id = uint (orig_method_idnum m),
            bte_version = version_at merged,
            bte_bci = bci_at merged,
            bte_name = Some (method_name m)\<rparr>)"

text \<open>
  A chunk holds the frames \<open>fs\<close>: its columns have \<^verbatim>\<open>trace_chunk_size\<close> entries, the
  first \<open>length fs\<close> entries read as the elements of \<open>fs\<close>, and the mirrors behind
  them are null.
\<close>

definition chunk_holds :: "chunk \<Rightarrow> (Method \<times> int) list \<Rightarrow> bool" where
  "chunk_holds c fs =
     (length (trace_methods c) = nat trace_chunk_size \<and>
      length (trace_bcis c) = nat trace_chunk_size \<and>
      length (trace_mirrors c) = nat trace_chunk_size \<and>
      length (trace_names c) = nat trace_chunk_size \<and>
      length fs \<le> nat trace_chunk_size \<and>
      (\<forall>i. i < length fs \<longrightarrow> element_at c (int i) = element_of (fs ! i)) \<and>
      (\<forall>i. length fs \<le> i \<and> i < nat trace_chunk_size \<longrightarrow> trace_mirrors c ! i = None))"

text \<open>
  The chunks \<open>cs\<close>, each with the frames it holds, are linked in this order from the
  pointer \<open>p\<close>, the link of the last one being \<open>q\<close>.
\<close>

fun path :: "heap \<Rightarrow> addr option \<Rightarrow> (addr \<times> (Method \<times> int) list) list \<Rightarrow> addr option \<Rightarrow> bool" where
  "path h p [] q = (p = q)"
| "path h p ((a, fs) # cs) q =
     (p = Some a \<and>
      (case chunks h a of
         None \<Rightarrow> False
       | Some c \<Rightarrow> chunk_holds c fs \<and> path h (trace_next c) cs q))"

text \<open>
  The hidden-top-frame marker of a backtrace, as \<^verbatim>\<open>get_top_method_and_bci\<close> reads it at
  line 2562: slot \<^verbatim>\<open>trace_hidden_offset\<close> of the first chunk.
\<close>

definition hidden_marker :: "heap \<Rightarrow> addr option \<Rightarrow> addr option" where
  "hidden_marker h p =
     (case p of
        None \<Rightarrow> None
      | Some a \<Rightarrow> (case chunks h a of None \<Rightarrow> None | Some c \<Rightarrow> trace_hidden c))"

text \<open>
  The builder \<open>b\<close> has built the chunks \<open>cs\<close>: they are linked from \<^verbatim>\<open>_backtrace\<close>, the
  last one is \<^verbatim>\<open>_head\<close> and holds \<^verbatim>\<open>_index\<close> frames, all before it are full, and the
  marker of the first chunk is the \<^verbatim>\<open>_has_hidden_top_frame\<close> of the builder.
\<close>

definition bt_inv :: "heap \<Rightarrow> BacktraceBuilder \<Rightarrow> (addr \<times> (Method \<times> int) list) list \<Rightarrow> bool" where
  "bt_inv h b cs =
     (cs \<noteq> [] \<and> path h (bt_backtrace b) cs None \<and>
      bt_head b = Some (fst (last cs)) \<and>
      bt_index b = int (length (snd (last cs))) \<and>
      (\<forall>(a, fs) \<in> set (butlast cs). length fs = nat trace_chunk_size) \<and>
      distinct (map fst cs) \<and> heap_ok h \<and>
      hidden_marker h (bt_backtrace b) = bt_has_hidden_top_frame b)"

text \<open>The builder \<open>b\<close> has recorded the frames \<open>xs\<close>, in this order.\<close>

definition recorded :: "heap \<Rightarrow> BacktraceBuilder \<Rightarrow> (Method \<times> int) list \<Rightarrow> bool" where
  "recorded h b xs = (\<exists>cs. bt_inv h b cs \<and> concat (map snd cs) = xs)"

section \<open>The frames that a capture records\<close>

text \<open>
  The frames the loop of \<^verbatim>\<open>fill_in_stack_trace\<close> sees, innermost first: one for an
  interpreted frame and for a compiled native frame (at bci 0), one for each scope of
  a compiled Java frame, none for a frame that is not compiled.
\<close>

fun scopes_of :: "frame \<Rightarrow> (Method \<times> int) list" where
  "scopes_of (Interpreted m bci) = [(m, bci)]"
| "scopes_of (Compiled_native m) = [(m, 0)]"
| "scopes_of (Compiled_java scopes) = scopes"
| "scopes_of Not_compiled = []"

definition logical_frames :: "frame list \<Rightarrow> (Method \<times> int) list" where
  "logical_frames fr = concat (map scopes_of fr)"

text \<open>
  The elision policy in the words of the specification: the leading frames of the
  "fill in trace" entry point declared by the class of the exception or a superclass
  are skipped, then the leading constructor frames of that class hierarchy; of what
  is left, the hidden frames are dropped when hidden frames are suppressed; and at
  most the maximum depth of frames is kept, 0 (or less) meaning no limit.
\<close>

definition is_filler_frame :: "throwable \<Rightarrow> Method \<times> int \<Rightarrow> bool" where
  "is_filler_frame t f =
     (method_name (fst f) = fillInStackTrace_name \<and> is_a t (method_holder (fst f)))"

definition is_constructor_frame :: "throwable \<Rightarrow> Method \<times> int \<Rightarrow> bool" where
  "is_constructor_frame t f =
     (method_name (fst f) = object_initializer_name \<and> is_a t (method_holder (fst f)))"

definition suppressed :: "flags \<Rightarrow> Method \<times> int \<Rightarrow> bool" where
  "suppressed fl f = (is_hidden (fst f) \<and> \<not> ShowHiddenFrames fl)"

definition after_elision :: "throwable \<Rightarrow> (Method \<times> int) list \<Rightarrow> (Method \<times> int) list" where
  "after_elision t fs = dropWhile (is_constructor_frame t) (dropWhile (is_filler_frame t) fs)"

definition surviving :: "flags \<Rightarrow> throwable \<Rightarrow> (Method \<times> int) list \<Rightarrow> (Method \<times> int) list" where
  "surviving fl t fs = filter (\<lambda>f. \<not> suppressed fl f) (after_elision t fs)"

definition limit :: "flags \<Rightarrow> nat \<Rightarrow> 'a list \<Rightarrow> 'a list" where
  "limit fl n ys =
     (if 0 < MaxJavaStackTraceDepth fl then take (nat (MaxJavaStackTraceDepth fl) - n) ys
      else ys)"

text \<open>The top of the trace is hidden: the first frame left by the elision is suppressed.\<close>

definition top_hidden :: "flags \<Rightarrow> throwable \<Rightarrow> (Method \<times> int) list \<Rightarrow> bool" where
  "top_hidden fl t fs =
     (case after_elision t fs of [] \<Rightarrow> False | f # _ \<Rightarrow> suppressed fl f)"

text \<open>The loop of \<^verbatim>\<open>walk\<close> over the frames it sees.\<close>

fun run_frames ::
  "flags \<Rightarrow> throwable \<Rightarrow> (Method \<times> int) list \<Rightarrow> capture \<Rightarrow> heap \<Rightarrow> capture traps" where
  "run_frames fl t [] s h = (Inr s, h)"
| "run_frames fl t ((m, bci) # fs) s h =
     (if MaxJavaStackTraceDepth fl = 0 \<or> MaxJavaStackTraceDepth fl \<noteq> total_count s then
        CHECK (filter_and_push fl t m bci s h) (\<lambda>s h. run_frames fl t fs s h)
      else (Inr s, h))"

text \<open>
  The frames the loop records from a state of its two flags, and whether it marks the
  top frame as hidden, when no frame has been recorded yet and no depth limit applies.
\<close>

fun select ::
  "flags \<Rightarrow> throwable \<Rightarrow> bool \<Rightarrow> bool \<Rightarrow> (Method \<times> int) list \<Rightarrow> (Method \<times> int) list" where
  "select fl t skF skI [] = []"
| "select fl t skF skI (f # fs) =
     (if \<not> skF \<and> is_filler_frame t f then select fl t skF skI fs
      else if \<not> skI \<and> is_constructor_frame t f then select fl t True skI fs
      else if suppressed fl f then select fl t True True fs
      else f # select fl t True True fs)"

fun marks :: "flags \<Rightarrow> throwable \<Rightarrow> bool \<Rightarrow> bool \<Rightarrow> (Method \<times> int) list \<Rightarrow> bool" where
  "marks fl t skF skI [] = False"
| "marks fl t skF skI (f # fs) =
     (if \<not> skF \<and> is_filler_frame t f then marks fl t skF skI fs
      else if \<not> skI \<and> is_constructor_frame t f then marks fl t True skI fs
      else suppressed fl f)"

section \<open>Example values\<close>

definition example_method :: "symbol \<Rightarrow> klass \<Rightarrow> bool \<Rightarrow> Method" where
  "example_method n k hid =
     \<lparr>method_name = n, orig_method_idnum = 7, constants_version = 3,
      method_holder = k, is_hidden = hid, is_native = False\<rparr>"

definition empty_heap :: "nat \<Rightarrow> heap" where
  "empty_heap n = \<lparr>chunks = Map.empty, booleans = Map.empty, next_free = 0, allocs_left = n\<rparr>"

text \<open>A builder as the constructor leaves it, and the same after one more \<^verbatim>\<open>expand\<close>.\<close>

definition one_chunk :: "BacktraceBuilder traps" where
  "one_chunk = new_BacktraceBuilder (empty_heap 10)"

definition two_chunks :: "BacktraceBuilder traps" where
  "two_chunks = CHECK one_chunk expand"

text \<open>The builder after \<open>n\<close> pushes of one method, with no other call between them.\<close>

fun push_times :: "nat \<Rightarrow> Method \<Rightarrow> BacktraceBuilder traps \<Rightarrow> BacktraceBuilder traps" where
  "push_times 0 m r = r"
| "push_times (Suc n) m r = push_times n m (CHECK r (\<lambda>b h. push b m 0 h))"

definition example_throwable :: throwable where
  "example_throwable =
     \<lparr>klass_hierarchy = [100, 101], backtrace = None, depth = 0, stackTrace = None\<rparr>"

definition example_flags :: "int \<Rightarrow> flags" where
  "example_flags max_depth =
     \<lparr>StackTraceInThrowable = True, MaxJavaStackTraceDepth = max_depth,
      ShowHiddenFrames = False\<rparr>"

definition example_thread :: "frame list \<Rightarrow> JavaThread" where
  "example_thread fr =
     \<lparr>has_last_Java_frame = True, last_frame = fr, pending_exception = None\<rparr>"

text \<open>A thread with no Java frame, as early at startup.\<close>

definition no_frame_thread :: JavaThread where
  "no_frame_thread =
     \<lparr>has_last_Java_frame = False, last_frame = [], pending_exception = None\<rparr>"

definition example_vm :: vm where
  "example_vm =
     \<lparr>java_lang_Class_name = (\<lambda>k. Inr ''Holder''),
      StringTable_intern = (\<lambda>s. Inr s),
      class_loader = (\<lambda>k. Some 1),
      java_lang_ClassLoader_name = (\<lambda>l. Some ''app''),
      holder_module = (\<lambda>k. \<lparr>is_named = False, entry_name = [], entry_version = None\<rparr>),
      get_source_file_name = (\<lambda>k version. Some ''Holder.java''),
      get_line_number = (\<lambda>m bci. 40 + bci),
      method_with_orig_idnum = (\<lambda>k idnum version. None)\<rparr>"

definition blank_element :: StackTraceElement where
  "blank_element =
     \<lparr>declaringClass = None, declaringClassObject = None, classLoaderName = None,
      methodName = None, moduleName = None, moduleVersion = None,
      fileName = Some ''Stale.java'', lineNumber = 17\<rparr>"

text \<open>
  A thread with an exception pending, whose top frame is hidden: with five allocations
  left the builder is created and the allocation of the hidden-top-frame marker fails.
\<close>

definition raising_thread :: JavaThread where
  "raising_thread =
     \<lparr>has_last_Java_frame = True,
      last_frame = [Interpreted (example_method ''invoke'' 12 True) 3,
                    Interpreted (example_method ''run'' 11 False) 3],
      pending_exception = Some NullPointerException\<rparr>"

text \<open>
  A stack whose two leading frames are the filler and a constructor of the exception
  class, followed by a hidden frame, a frame of a method \<open>run\<close>, and a compiled frame
  with two scopes: a constructor of the exception class again, and the filler again.
\<close>

definition example_stack :: "frame list" where
  "example_stack =
     [Interpreted (example_method ''fillInStackTrace'' 101 False) 0,
      Interpreted (example_method ''<init>'' 100 False) 5,
      Interpreted (example_method ''invoke'' 12 True) 2,
      Not_compiled,
      Interpreted (example_method ''run'' 11 False) 3,
      Compiled_java [(example_method ''<init>'' 100 False, 9),
                     (example_method ''fillInStackTrace'' 101 False, - 1)]]"


text \<open>The locals of the loop on a new builder, with both flags set.\<close>

definition past_elision :: capture where
  "past_elision =
     \<lparr>total_count = 0, skip_fillInStackTrace_check = True, skip_throwableInit_check = True,
      bt = \<lparr>bt_backtrace = Some 0, bt_head = Some 0,
            bt_has_hidden_top_frame = None, bt_index = 0\<rparr>\<rparr>"

section \<open>The builder\<close>

lemma allocate_Inr:
  "allocate h = (Inr a, h') \<longleftrightarrow>
     allocs_left h \<noteq> 0 \<and> a = next_free h \<and>
     h' = h\<lparr>next_free := Suc (next_free h), allocs_left := allocs_left h - 1\<rparr>"
  by (auto simp: allocate_def)

lemma CHECK_Inr:
  "CHECK r k = (Inr y, h') \<longleftrightarrow> (\<exists>x h1. r = (Inr x, h1) \<and> k x h1 = (Inr y, h'))"
  by (auto simp: CHECK_def split: prod.splits sum.splits)

lemma traps_result:
  "fst r = Inr () \<Longrightarrow> r = (Inr (), fst (snd r), snd (snd r))"
  by (cases r) auto

lemma traps_projr:
  "\<not> isl (fst r) \<Longrightarrow> r = (Inr (projr (fst r)), snd r)"
  by (cases r) (auto simp: isl_def)

lemma expand_Inr:
  assumes "expand b h = (Inr b', h')"
  shows "b' = b\<lparr>bt_head := Some (next_free h), bt_index := 0\<rparr>"
    and "chunks h' = (case bt_head b of
            None \<Rightarrow> chunks h
          | Some old \<Rightarrow> (case chunks h old of None \<Rightarrow> chunks h
               | Some c \<Rightarrow> (chunks h)(old \<mapsto> c\<lparr>trace_next := Some (next_free h)\<rparr>)))
         (next_free h \<mapsto> new_chunk)"
    and "next_free h' = next_free h + 5"
    and "allocs_left h = allocs_left h' + 5"
    and "booleans h' = booleans h"
  using assms
  by (auto simp: expand_def CHECK_Inr allocate_Inr Let_def obj_at_put_def split: option.splits)

text \<open>
  C3, as the code has it: a successful \<^verbatim>\<open>expand\<close> on a builder with a head allocates
  one chunk at an address that held none, makes it the head of the builder with the
  write cursor at 0, and stores it in the \<^verbatim>\<open>trace_next\<close> slot of the previous head;
  the link of the new chunk stays null, no other chunk changes, and \<^verbatim>\<open>_backtrace\<close>,
  where iteration begins, stays the first chunk. The chunks are linked from the
  oldest to the newest.
\<close>

theorem expand_links_old_head_to_new:
  assumes "expand b h = (Inr b', h')" and "bt_head b = Some old"
    and "chunks h old = Some c" and "heap_ok h"
  shows "bt_head b' = Some (next_free h) \<and> chunks h (next_free h) = None \<and>
         chunks h' (next_free h) = Some new_chunk \<and> trace_next new_chunk = None \<and>
         chunks h' old = Some (c\<lparr>trace_next := Some (next_free h)\<rparr>) \<and>
         bt_backtrace b' = bt_backtrace b \<and> bt_index b' = 0 \<and>
         (\<forall>a. a \<noteq> old \<and> a \<noteq> next_free h \<longrightarrow> chunks h' a = chunks h a)"
proof -
  have fresh: "chunks h (next_free h) = None"
    using assms(4) by (simp add: heap_ok_def)
  then have "old \<noteq> next_free h" using assms(3) by auto
  then show ?thesis
    using expand_Inr[OF assms(1)] assms(2,3) fresh by (simp add: new_chunk_def)
qed

lemma one_chunk_eq:
  "one_chunk = (Inr \<lparr>bt_backtrace = Some 0, bt_head = Some 0,
                      bt_has_hidden_top_frame = None, bt_index = 0\<rparr>,
                \<lparr>chunks = [0 \<mapsto> new_chunk], booleans = Map.empty,
                 next_free = 5, allocs_left = 5\<rparr>)"
  by (simp add: one_chunk_def new_BacktraceBuilder_def expand_def CHECK_def allocate_def
      empty_heap_def Let_def)

theorem expand_links_old_head_to_new_witness:
  "bt_head (\<lparr>bt_backtrace = Some 0, bt_head = Some 0,
             bt_has_hidden_top_frame = None, bt_index = 0\<rparr>) = Some 0 \<and>
   heap_ok \<lparr>chunks = [0 \<mapsto> new_chunk], booleans = Map.empty, next_free = 5, allocs_left = 5\<rparr> \<and>
   fst two_chunks = Inr \<lparr>bt_backtrace = Some 0, bt_head = Some 5,
                          bt_has_hidden_top_frame = None, bt_index = 0\<rparr> \<and>
   chunks (snd two_chunks) 5 = Some new_chunk \<and>
   chunks (snd two_chunks) 0 = Some (new_chunk\<lparr>trace_next := Some 5\<rparr>)"
proof -
  let ?b = "\<lparr>bt_backtrace = Some 0, bt_head = Some 0,
             bt_has_hidden_top_frame = None, bt_index = 0\<rparr>"
  let ?h = "\<lparr>chunks = [0 \<mapsto> new_chunk], booleans = Map.empty, next_free = 5, allocs_left = 5\<rparr>"
  have ok: "heap_ok ?h" by (simp add: heap_ok_def)
  obtain b' h' where e: "expand ?b ?h = (Inr b', h')"
    by (simp add: expand_def CHECK_def allocate_def Let_def)
  have two: "two_chunks = (Inr b', h')"
    by (simp add: two_chunks_def one_chunk_eq CHECK_def e)
  have b': "b' = \<lparr>bt_backtrace = Some 0, bt_head = Some 5,
                   bt_has_hidden_top_frame = None, bt_index = 0\<rparr>"
    using expand_Inr(1)[OF e] by simp
  have "fst two_chunks = Inr b'" and "snd two_chunks = h'"
    by (simp_all add: two)
  then show ?thesis
    using expand_links_old_head_to_new[OF e _ _ ok, of 0 new_chunk] ok b' by simp
qed

text \<open>
  C3 as stated fails: after the constructor and one more \<^verbatim>\<open>expand\<close> the new chunk
  (address 5) has a null \<^verbatim>\<open>trace_next\<close>, the previous chunk (address 0) points at the
  new one, and iteration over \<^verbatim>\<open>_backtrace\<close> begins at the previous chunk.
\<close>

theorem expand_new_chunk_points_back_counterexample:
  "fst two_chunks = Inr \<lparr>bt_backtrace = Some 0, bt_head = Some 5,
                          bt_has_hidden_top_frame = None, bt_index = 0\<rparr> \<and>
   map_option trace_next (chunks (snd two_chunks) 5) = Some None \<and>
   map_option trace_next (chunks (snd two_chunks) 5) \<noteq> Some (Some 0) \<and>
   map_option trace_next (chunks (snd two_chunks) 0) = Some (Some 5) \<and>
   it_result (new_BacktraceIterator (Some 0)) = Some 0 \<and>
   it_result (new_BacktraceIterator (Some 0)) \<noteq> Some 5"
  by code_simp

text \<open>
  C4, as the code has it: \<^verbatim>\<open>push\<close> handles chunk overflow itself. When the write
  cursor has reached \<^verbatim>\<open>trace_chunk_size\<close> it calls \<^verbatim>\<open>expand\<close> (and returns with the
  pending exception when that fails), then writes the frame at index 0 of the new
  head chunk and leaves the cursor at 1; below \<^verbatim>\<open>trace_chunk_size\<close> it writes at the
  cursor of the current head chunk and advances the cursor by one.
\<close>

theorem push_expands_at_chunk_size:
  "(trace_chunk_size \<le> bt_index b \<longrightarrow>
      push b m bci h =
        CHECK (expand b h) (\<lambda>b' h'.
          (Inr (b'\<lparr>bt_index := 1\<rparr>),
           (case bt_head b' of
              None \<Rightarrow> h'
            | Some head \<Rightarrow>
                obj_at_put head
                  (put_frame 0 m (if bci = SynchronizationEntryBCI then 0 else bci)) h')))) \<and>
   (bt_index b < trace_chunk_size \<longrightarrow>
      push b m bci h =
        (Inr (b\<lparr>bt_index := bt_index b + 1\<rparr>),
         (case bt_head b of
            None \<Rightarrow> h
          | Some head \<Rightarrow>
              obj_at_put head
                (put_frame (bt_index b) m (if bci = SynchronizationEntryBCI then 0 else bci)) h)))"
  by (simp add: push_def expand_def CHECK_def allocate_def Let_def)

theorem push_expands_at_chunk_size_witness:
  "trace_chunk_size \<le> bt_index \<lparr>bt_backtrace = Some 0, bt_head = Some 0,
                                   bt_has_hidden_top_frame = None, bt_index = 32\<rparr> \<and>
   push \<lparr>bt_backtrace = Some 0, bt_head = Some 0,
         bt_has_hidden_top_frame = None, bt_index = 32\<rparr> (example_method ''run'' 11 False) 4
        (empty_heap 5\<lparr>chunks := [0 \<mapsto> new_chunk], next_free := 5\<rparr>) =
     (Inr \<lparr>bt_backtrace = Some 0, bt_head = Some 5,
           bt_has_hidden_top_frame = None, bt_index = 1\<rparr>,
      \<lparr>chunks = [0 \<mapsto> new_chunk\<lparr>trace_next := Some 5\<rparr>,
                 5 \<mapsto> put_frame 0 (example_method ''run'' 11 False) 4 new_chunk],
       booleans = Map.empty, next_free = 10, allocs_left = 0\<rparr>) \<and>
   bt_index \<lparr>bt_backtrace = Some 0, bt_head = Some 0,
             bt_has_hidden_top_frame = None, bt_index = 2\<rparr> < trace_chunk_size \<and>
   push \<lparr>bt_backtrace = Some 0, bt_head = Some 0,
         bt_has_hidden_top_frame = None, bt_index = 2\<rparr> (example_method ''run'' 11 False) (- 1)
        (empty_heap 0\<lparr>chunks := [0 \<mapsto> new_chunk], next_free := 5\<rparr>) =
     (Inr \<lparr>bt_backtrace = Some 0, bt_head = Some 0,
           bt_has_hidden_top_frame = None, bt_index = 3\<rparr>,
      \<lparr>chunks = [0 \<mapsto> put_frame 2 (example_method ''run'' 11 False) 0 new_chunk],
       booleans = Map.empty, next_free = 5, allocs_left = 0\<rparr>)"
  using push_expands_at_chunk_size
          [of "\<lparr>bt_backtrace = Some 0, bt_head = Some 0,
                bt_has_hidden_top_frame = None, bt_index = 32\<rparr>"
              "example_method ''run'' 11 False" 4
              "empty_heap 5\<lparr>chunks := [0 \<mapsto> new_chunk], next_free := 5\<rparr>"]
        push_expands_at_chunk_size
          [of "\<lparr>bt_backtrace = Some 0, bt_head = Some 0,
                bt_has_hidden_top_frame = None, bt_index = 2\<rparr>"
              "example_method ''run'' 11 False" "- 1"
              "empty_heap 0\<lparr>chunks := [0 \<mapsto> new_chunk], next_free := 5\<rparr>"]
  by (simp add: trace_chunk_size_def expand_def CHECK_def allocate_def Let_def empty_heap_def
      obj_at_put_def SynchronizationEntryBCI_def fun_upd_twist)

text \<open>
  C4 as stated fails: 33 pushes in a row on a new builder, with no call of \<^verbatim>\<open>expand\<close>
  between them, all succeed. The 33rd finds the cursor at \<^verbatim>\<open>trace_chunk_size\<close>, and
  writes its frame at index 0 of a chunk it allocated itself (address 5), not into the
  chunk that was the head when it was called (address 0).
\<close>

theorem push_leaves_overflow_to_caller_counterexample:
  "fst (push_times 32 (example_method ''run'' 11 False) one_chunk) =
     Inr \<lparr>bt_backtrace = Some 0, bt_head = Some 0,
          bt_has_hidden_top_frame = None, bt_index = 32\<rparr> \<and>
   fst (push_times 33 (example_method ''run'' 11 False) one_chunk) =
     Inr \<lparr>bt_backtrace = Some 0, bt_head = Some 5,
          bt_has_hidden_top_frame = None, bt_index = 1\<rparr> \<and>
   map_option (\<lambda>c. trace_mirrors c ! 0)
     (chunks (snd (push_times 33 (example_method ''run'' 11 False) one_chunk)) 5) = Some (Some 11) \<and>
   map_option trace_mirrors
     (chunks (snd (push_times 33 (example_method ''run'' 11 False) one_chunk)) 0) =
   map_option trace_mirrors
     (chunks (snd (push_times 32 (example_method ''run'' 11 False) one_chunk)) 0)"
  by code_simp

text \<open>
  C10: \<^verbatim>\<open>set_has_hidden_top_frame\<close> called twice (the second call made, as the \<^verbatim>\<open>CHECK\<close>
  of the caller has it, when the first returned normally) yields the builder and the
  heap of one call; and on a builder whose marker is set the call changes neither the
  builder nor the heap, so it allocates nothing.
\<close>

theorem set_has_hidden_top_frame_idempotent:
  "CHECK (set_has_hidden_top_frame b h) set_has_hidden_top_frame = set_has_hidden_top_frame b h \<and>
   set_has_hidden_top_frame (b\<lparr>bt_has_hidden_top_frame := Some a\<rparr>) h =
     (Inr (b\<lparr>bt_has_hidden_top_frame := Some a\<rparr>), h)"
  by (simp add: set_has_hidden_top_frame_def CHECK_def allocate_def Let_def split: option.splits)

section \<open>Materialization\<close>

text \<open>
  C2: when no method resolves for the stored slot at the stored version (the method
  handle is null), or the resolved method is of another version, \<^verbatim>\<open>fill_in\<close> behaves as
  its first part, which fills in the names and reads neither the method nor the
  version, followed by setting the file name to null and the line number to \<open>-1\<close>. So
  it returns with a pending exception only where filling in the names does, it never
  asks for a line number, and it leaves the cache of source file names as it is.
\<close>

theorem fill_in_redefined:
  assumes "method = None \<or> \<not> version_matches method version"
  shows "fill_in v holder method version bci name st =
           CHECK (fill_in_names v holder name st) (\<lambda>_ (element, sf).
             (Inr (), (element\<lparr>fileName := None, lineNumber := - 1\<rparr>, sf)))"
proof -
  have "fill_in_source v holder method version bci (element, sf) =
          (Inr (), (element\<lparr>fileName := None, lineNumber := - 1\<rparr>, sf))" for element sf
    using assms by (auto simp: fill_in_source_def split: option.splits)
  then show ?thesis
    by (simp add: fill_in_def CHECK_def split: prod.splits sum.splits)
qed

theorem fill_in_redefined_witness:
  "\<not> version_matches None 3 \<and>
   fst (fill_in example_vm 11 None 3 4 ''run'' (blank_element, Map.empty)) = Inr () \<and>
   fileName (fst (snd (fill_in example_vm 11 None 3 4 ''run'' (blank_element, Map.empty)))) = None \<and>
   lineNumber (fst (snd (fill_in example_vm 11 None 3 4 ''run'' (blank_element, Map.empty)))) = - 1 \<and>
   \<not> version_matches (Some (example_method ''run'' 11 False)) 2 \<and>
   fst (snd (fill_in example_vm 11 (Some (example_method ''run'' 11 False)) 2 4 ''run''
               (blank_element, Map.empty))) =
     \<lparr>declaringClass = Some ''Holder'', declaringClassObject = Some 11,
      classLoaderName = Some ''app'', methodName = Some ''run'',
      moduleName = None, moduleVersion = None, fileName = None, lineNumber = - 1\<rparr>"
  using fill_in_redefined [of None 3 example_vm 11 4 "''run''" "(blank_element, Map.empty)"]
        fill_in_redefined [of "Some (example_method ''run'' 11 False)" 2 example_vm 11 4 "''run''"
                              "(blank_element, Map.empty)"]
  by (simp add: version_matches_def example_method_def fill_in_names_def example_vm_def
      blank_element_def CHECK_def Let_def)

section \<open>Extraction\<close>

lemma fill_elements_null_backtrace:
  "fill_elements v h (new_BacktraceIterator None) index st = Some (Inr (), st)"
  by (subst fill_elements.simps) (simp add: repeat_def new_BacktraceIterator_def init_def)

text \<open>
  C8, as the code has it: a null throwable or destination array signals
  \<^verbatim>\<open>NullPointerException\<close>; with both non-null, a destination whose length differs from
  the recorded depth signals \<^verbatim>\<open>IndexOutOfBoundsException\<close>, whatever the depth; in both
  cases the destination is left as it was. A null backtrace is no error: with a
  destination of the recorded depth the call returns normally and fills nothing.
\<close>

theorem get_stack_trace_elements_checks:
  "(throwable = None \<or> array = None \<longrightarrow>
      get_stack_trace_elements v h throwable array sf =
        Some (Inl NullPointerException, (array, sf))) \<and>
   (int (length a) \<noteq> depth t \<longrightarrow>
      get_stack_trace_elements v h (Some t) (Some a) sf =
        Some (Inl IndexOutOfBoundsException, (Some a, sf))) \<and>
   (int (length a) = depth t \<and> backtrace t = None \<longrightarrow>
      get_stack_trace_elements v h (Some t) (Some a) sf = Some (Inr (), (Some a, sf)))"
  by (auto simp: get_stack_trace_elements_def fill_elements_null_backtrace split: option.splits)

theorem get_stack_trace_elements_checks_witness:
  "get_stack_trace_elements example_vm (empty_heap 0) None (Some [Some blank_element]) Map.empty =
     Some (Inl NullPointerException, (Some [Some blank_element], Map.empty)) \<and>
   int (length [Some blank_element]) \<noteq> depth example_throwable \<and>
   get_stack_trace_elements example_vm (empty_heap 0) (Some example_throwable)
       (Some [Some blank_element]) Map.empty =
     Some (Inl IndexOutOfBoundsException, (Some [Some blank_element], Map.empty)) \<and>
   int (length ([] :: StackTraceElement option list)) = depth example_throwable \<and>
   backtrace example_throwable = None \<and>
   get_stack_trace_elements example_vm (empty_heap 0) (Some example_throwable) (Some []) Map.empty =
     Some (Inr (), (Some [], Map.empty))"
  using get_stack_trace_elements_checks
          [of None "Some [Some blank_element]" example_vm "empty_heap 0" Map.empty
              "[Some blank_element]" example_throwable]
        get_stack_trace_elements_checks
          [of None "Some [Some blank_element]" example_vm "empty_heap 0" Map.empty
              "[]" example_throwable]
  by (simp add: example_throwable_def)

text \<open>
  C8 as stated fails: a null throwable signals \<^verbatim>\<open>NullPointerException\<close>, not the
  boundary error \<^verbatim>\<open>IndexOutOfBoundsException\<close>; and a throwable whose backtrace is null,
  with depth 0 and an empty destination, signals no error at all.
\<close>

theorem null_handles_signal_boundary_error_counterexample:
  "map_option fst (get_stack_trace_elements example_vm (empty_heap 0) None
      (Some [Some blank_element]) Map.empty) = Some (Inl NullPointerException) \<and>
   map_option fst (get_stack_trace_elements example_vm (empty_heap 0) None
      (Some [Some blank_element]) Map.empty) \<noteq> Some (Inl IndexOutOfBoundsException) \<and>
   backtrace example_throwable = None \<and>
   map_option fst (get_stack_trace_elements example_vm (empty_heap 0) (Some example_throwable)
      (Some []) Map.empty) = Some (Inr ())"
  by code_simp

section \<open>Capture\<close>

text \<open>
  C5 at its failing input: with no Java frame and a method supplied, the capture with
  \<^verbatim>\<open>MaxJavaStackTraceDepth = 0\<close> returns normally and records nothing (the backtrace
  stays null and the depth 0), where with \<^verbatim>\<open>MaxJavaStackTraceDepth = 1\<close> it records the
  one frame and the depth 1. The guard at line 2325 is \<^verbatim>\<open>max_depth >= 1\<close>, while the loop
  at line 2352 takes \<^verbatim>\<open>max_depth == 0\<close> as no limit.
\<close>

theorem no_java_frame_unlimited_depth:
  "fst (fill_in_stack_trace_TRAPS (example_flags 0) no_frame_thread example_throwable
          (Some (example_method ''run'' 11 False)) (empty_heap 10)) = Inr () \<and>
   fst (snd (fill_in_stack_trace_TRAPS (example_flags 0) no_frame_thread example_throwable
          (Some (example_method ''run'' 11 False)) (empty_heap 10))) =
     example_throwable\<lparr>backtrace := None, depth := 0\<rparr> \<and>
   fst (snd (fill_in_stack_trace_TRAPS (example_flags 1) no_frame_thread example_throwable
          (Some (example_method ''run'' 11 False)) (empty_heap 10))) =
     example_throwable\<lparr>backtrace := Some 0, depth := 1\<rparr>"
  by code_simp

lemma fill_in_stack_trace_TRAPS_failed:
  assumes "fill_in_stack_trace_TRAPS fl thread t method h = (Inl e, t', h')"
  shows "t' = t\<lparr>backtrace := None, stackTrace := None\<rparr>"
  using assms
  by (auto simp: fill_in_stack_trace_TRAPS_def Let_def
      split: if_splits prod.splits sum.splits option.splits)

text \<open>
  C9: \<^verbatim>\<open>fill_in_stack_trace(throwable, method)\<close> always returns with the pending
  exception of the thread as it was at the call, so it raises nothing new; and when the
  capture inside it fails (returns with an exception pending, as after an allocation
  failure), the throwable is left with a null backtrace and a null stack trace and is
  otherwise unchanged.
\<close>

theorem fill_in_stack_trace_suppresses_failure:
  "fst (fill_in_stack_trace fl should_fill thread t method h) = thread \<and>
   (StackTraceInThrowable fl \<and> should_fill \<and>
    fst (fill_in_stack_trace_TRAPS fl (thread\<lparr>pending_exception := None\<rparr>) t method h) = Inl e
    \<longrightarrow> fst (snd (fill_in_stack_trace fl should_fill thread t method h)) =
          t\<lparr>backtrace := None, stackTrace := None\<rparr>)"
proof -
  obtain r t' h' where
    r: "fill_in_stack_trace_TRAPS fl (thread\<lparr>pending_exception := None\<rparr>) t method h = (r, t', h')"
    by (metis prod_cases3)
  have 1: "fst (fill_in_stack_trace fl should_fill thread t method h) = thread"
    by (simp add: fill_in_stack_trace_def Let_def r split: sum.splits)
  have 2: "fst (snd (fill_in_stack_trace fl should_fill thread t method h)) =
             t\<lparr>backtrace := None, stackTrace := None\<rparr>"
    if "StackTraceInThrowable fl" and "should_fill" and "r = Inl e"
    using that r fill_in_stack_trace_TRAPS_failed[of fl _ t _ h e t' h']
    by (simp add: fill_in_stack_trace_def Let_def)
  show ?thesis using 1 2 r by simp
qed

lemma raising_fails:
  "fst (fill_in_stack_trace_TRAPS (example_flags 0) (raising_thread\<lparr>pending_exception := None\<rparr>)
          example_throwable None (empty_heap 5)) = Inl OutOfMemoryError"
  by code_simp

theorem fill_in_stack_trace_suppresses_failure_witness:
  "StackTraceInThrowable (example_flags 0) \<and>
   fst (fill_in_stack_trace_TRAPS (example_flags 0) (raising_thread\<lparr>pending_exception := None\<rparr>)
          example_throwable None (empty_heap 5)) = Inl OutOfMemoryError \<and>
   fst (fill_in_stack_trace (example_flags 0) True raising_thread example_throwable None
          (empty_heap 5)) = raising_thread \<and>
   fst (snd (fill_in_stack_trace (example_flags 0) True raising_thread example_throwable None
          (empty_heap 5))) = example_throwable\<lparr>backtrace := None, stackTrace := None\<rparr>"
  using fill_in_stack_trace_suppresses_failure
          [of "example_flags 0" True raising_thread example_throwable None "empty_heap 5"
              OutOfMemoryError]
        raising_fails
  by (simp add: example_flags_def)

section \<open>What a store holds\<close>

lemma chunk_holds_new_chunk: "chunk_holds new_chunk []"
  by (simp add: chunk_holds_def new_chunk_def)

lemma chunk_holds_trace_next [simp]:
  "chunk_holds (c\<lparr>trace_next := x\<rparr>) fs = chunk_holds c fs"
  by (simp add: chunk_holds_def element_at_def)

lemma chunk_holds_trace_hidden [simp]:
  "chunk_holds (c\<lparr>trace_hidden := x\<rparr>) fs = chunk_holds c fs"
  by (simp add: chunk_holds_def element_at_def)

lemma element_at_put_frame_same:
  assumes "chunk_holds c fs" and "length fs < nat trace_chunk_size"
  shows "element_at (put_frame (int (length fs)) m
            (if bci = SynchronizationEntryBCI then 0 else bci) c) (int (length fs)) =
         element_of (m, bci)"
  using assms by (simp add: chunk_holds_def element_at_def put_frame_def element_of_def Let_def)

lemma element_at_put_frame_other:
  assumes "i \<noteq> j"
  shows "element_at (put_frame (int j) m bci c) (int i) = element_at c (int i)"
  using assms by (simp add: element_at_def put_frame_def)

lemma chunk_holds_put_frame:
  assumes "chunk_holds c fs" and "length fs < nat trace_chunk_size"
  shows "chunk_holds (put_frame (int (length fs)) m
            (if bci = SynchronizationEntryBCI then 0 else bci) c) (fs @ [(m, bci)])"
proof -
  let ?c = "put_frame (int (length fs)) m (if bci = SynchronizationEntryBCI then 0 else bci) c"
  have len: "length (trace_methods ?c) = nat trace_chunk_size"
    "length (trace_bcis ?c) = nat trace_chunk_size"
    "length (trace_mirrors ?c) = nat trace_chunk_size"
    "length (trace_names ?c) = nat trace_chunk_size"
    using assms(1) by (simp_all add: chunk_holds_def put_frame_def)
  have el: "element_at ?c (int i) = element_of ((fs @ [(m, bci)]) ! i)"
    if "i < length (fs @ [(m, bci)])" for i
  proof (cases "i = length fs")
    case True
    then show ?thesis using element_at_put_frame_same[OF assms] by simp
  next
    case False
    then have "i < length fs" using that by simp
    then show ?thesis
      using assms(1) False by (simp add: element_at_put_frame_other chunk_holds_def nth_append)
  qed
  have rest: "trace_mirrors ?c ! i = None"
    if "length (fs @ [(m, bci)]) \<le> i \<and> i < nat trace_chunk_size" for i
    using that assms(1) by (simp add: chunk_holds_def put_frame_def)
  show ?thesis
    unfolding chunk_holds_def using len el rest assms(2) by simp
qed

lemma path_append:
  "path h p (cs @ ds) q = (\<exists>r. path h p cs r \<and> path h r ds q)"
  by (induction cs arbitrary: p) (auto split: option.splits)

lemma path_cong:
  assumes "\<And>a. a \<in> fst ` set cs \<Longrightarrow> chunks h' a = chunks h a"
  shows "path h' p cs q = path h p cs q"
  using assms by (induction cs arbitrary: p) (auto split: option.splits)

section \<open>Iteration yields what the store holds\<close>

lemma elements_null: "elements h \<lparr>it_index = i, it_result = None\<rparr> = Some []"
  by (subst elements.simps) (simp add: repeat_def)

lemma elements_path:
  assumes "path h (Some a) ((a, fs) # cs) None"
    and "\<forall>(a', fs') \<in> set (butlast ((a, fs) # cs)). length fs' = nat trace_chunk_size"
    and "i \<le> length fs" and "i < nat trace_chunk_size"
  shows "elements h \<lparr>it_index = int i, it_result = Some a\<rparr> =
           Some (map element_of (drop i fs @ concat (map snd cs)))"
  using assms
proof (induction cs arbitrary: a fs i)
  case Nil
  then obtain c where c: "chunks h a = Some c" "chunk_holds c fs" "trace_next c = None"
    by (auto split: option.splits)
  from Nil.prems(3,4) show ?case
  proof (induction "length fs - i" arbitrary: i)
    case 0
    then have "i = length fs" by simp
    then have "trace_mirrors c ! i = None"
      using c(2) 0 by (simp add: chunk_holds_def)
    then show ?case
      using \<open>i = length fs\<close> c(1) by (subst elements.simps) (simp add: repeat_def)
  next
    case (Suc k)
    then have i: "i < length fs" by simp
    then have el: "element_at c (int i) = element_of (fs ! i)"
      using c(2) by (simp add: chunk_holds_def)
    have rep: "repeat h \<lparr>it_index = int i, it_result = Some a\<rparr>"
      using el c(1) by (simp add: repeat_def element_at_def element_of_def Let_def split: prod.splits)
    show ?case
    proof (cases "Suc i < nat trace_chunk_size")
      case True
      have nxt: "next_element h \<lparr>it_index = int i, it_result = Some a\<rparr> =
                   Some (element_of (fs ! i), \<lparr>it_index = int (Suc i), it_result = Some a\<rparr>)"
        using True c(1) el by (simp add: next_element_def Let_def)
      have "elements h \<lparr>it_index = int (Suc i), it_result = Some a\<rparr> =
              Some (map element_of (drop (Suc i) fs @ concat (map snd [])))"
        using Suc(1)[of "Suc i"] Suc(2) i True by simp
      then show ?thesis
        using rep nxt i by (subst elements.simps) (simp add: Cons_nth_drop_Suc[symmetric])
    next
      case False
      then have last: "Suc i = length fs" "length fs = nat trace_chunk_size"
        using i c(2) by (auto simp: chunk_holds_def)
      have nxt: "next_element h \<lparr>it_index = int i, it_result = Some a\<rparr> =
                   Some (element_of (fs ! i), \<lparr>it_index = int (Suc i), it_result = None\<rparr>)"
        using False c(1,3) el by (simp add: next_element_def Let_def init_def)
      show ?thesis
        using rep nxt i last
        by (subst elements.simps) (simp add: elements_null Cons_nth_drop_Suc[symmetric])
    qed
  qed
next
  case (Cons d ds)
  obtain a' fs' where d: "d = (a', fs')" by (cases d)
  from Cons.prems(1) obtain c where
    c: "chunks h a = Some c" "chunk_holds c fs" "trace_next c = Some a'"
       "path h (Some a') ((a', fs') # ds) None"
    by (auto simp: d split: option.splits)
  have full: "length fs = nat trace_chunk_size"
    using Cons.prems(2) by simp
  have rest: "\<forall>(a', fs') \<in> set (butlast ((a', fs') # ds)). length fs' = nat trace_chunk_size"
    using Cons.prems(2) by (auto simp: d)
  have tail: "elements h \<lparr>it_index = 0, it_result = Some a'\<rparr> =
                Some (map element_of (fs' @ concat (map snd ds)))"
    using Cons.IH[OF c(4) rest, of 0] Cons.prems(4) by simp
  from Cons.prems(3,4) show ?case
  proof (induction "length fs - i" arbitrary: i)
    case 0
    then show ?case using full by simp
  next
    case (Suc k)
    then have i: "i < length fs" by simp
    then have el: "element_at c (int i) = element_of (fs ! i)"
      using c(2) by (simp add: chunk_holds_def)
    have rep: "repeat h \<lparr>it_index = int i, it_result = Some a\<rparr>"
      using el c(1) by (simp add: repeat_def element_at_def element_of_def Let_def split: prod.splits)
    show ?case
    proof (cases "Suc i < nat trace_chunk_size")
      case True
      have nxt: "next_element h \<lparr>it_index = int i, it_result = Some a\<rparr> =
                   Some (element_of (fs ! i), \<lparr>it_index = int (Suc i), it_result = Some a\<rparr>)"
        using True c(1) el by (simp add: next_element_def Let_def)
      have "elements h \<lparr>it_index = int (Suc i), it_result = Some a\<rparr> =
              Some (map element_of (drop (Suc i) fs @ concat (map snd (d # ds))))"
        using Suc(1)[of "Suc i"] Suc(2) i True by simp
      then show ?thesis
        using rep nxt i by (subst elements.simps) (simp add: Cons_nth_drop_Suc[symmetric])
    next
      case False
      then have last: "Suc i = length fs"
        using i full by simp
      have nxt: "next_element h \<lparr>it_index = int i, it_result = Some a\<rparr> =
                   Some (element_of (fs ! i), \<lparr>it_index = 0, it_result = Some a'\<rparr>)"
        using False c(1,3) el by (simp add: next_element_def Let_def init_def)
      show ?thesis
        using rep nxt i last tail
        by (subst elements.simps) (simp add: d Cons_nth_drop_Suc[symmetric])
    qed
  qed
qed

section \<open>The builder keeps a well-formed store\<close>

lemma path_chunks:
  assumes "path h p cs q" and "a \<in> fst ` set cs"
  shows "chunks h a \<noteq> None"
  using assms
proof (induction cs arbitrary: p)
  case Nil
  then show ?case by simp
next
  case (Cons d cs)
  obtain a' fs' where d: "d = (a', fs')" by (cases d)
  from Cons.prems(1) obtain c where
    c: "chunks h a' = Some c" "path h (trace_next c) cs q"
    by (auto simp: d split: option.splits)
  show ?case
  proof (cases "a = a'")
    case True
    then show ?thesis using c(1) by simp
  next
    case False
    then have "a \<in> fst ` set cs" using Cons.prems(2) by (auto simp: d)
    then show ?thesis using Cons.IH[OF c(2)] by simp
  qed
qed

lemma path_below_next_free:
  assumes "path h p cs q" and "heap_ok h" and "a \<in> fst ` set cs"
  shows "a < next_free h"
  using path_chunks[OF assms(1,3)] assms(2) by (auto simp: heap_ok_def not_le[symmetric])

lemma path_last:
  assumes "path h p (cs @ [(a, fs)]) q"
  shows "\<exists>c. chunks h a = Some c \<and> chunk_holds c fs \<and> trace_next c = q \<and>
             path h p cs (Some a)"
  using assms by (auto simp: path_append split: option.splits)

lemma push_below_chunk_size:
  assumes "bt_index b < trace_chunk_size" and "bt_head b = Some a" and "chunks h a = Some c"
  shows "push b m bci h =
           (Inr (b\<lparr>bt_index := bt_index b + 1\<rparr>),
            h\<lparr>chunks := (chunks h)(a \<mapsto>
                 put_frame (bt_index b) m (if bci = SynchronizationEntryBCI then 0 else bci) c)\<rparr>)"
  using assms by (simp add: push_def CHECK_def obj_at_put_def Let_def)

lemma push_at_chunk_size:
  assumes "trace_chunk_size \<le> bt_index b" and "bt_head b = Some a" and "chunks h a = Some c"
    and "heap_ok h" and "push b m bci h = (Inr b', h')"
  shows "b' = b\<lparr>bt_head := Some (next_free h), bt_index := 1\<rparr>"
    and "chunks h' = (chunks h)
           (a \<mapsto> c\<lparr>trace_next := Some (next_free h)\<rparr>,
            next_free h \<mapsto>
              put_frame 0 m (if bci = SynchronizationEntryBCI then 0 else bci) new_chunk)"
    and "next_free h' = next_free h + 5" and "booleans h' = booleans h"
proof -
  from assms(1,5) obtain b1 h1 where
    e: "expand b h = (Inr b1, h1)" and
    p: "(Inr (b1\<lparr>bt_index := bt_index b1 + 1\<rparr>),
         (case bt_head b1 of None \<Rightarrow> h1
          | Some head \<Rightarrow> obj_at_put head
              (put_frame (bt_index b1) m (if bci = SynchronizationEntryBCI then 0 else bci)) h1))
        = (Inr b', h')"
    by (auto simp: push_def CHECK_Inr Let_def)
  note ex = expand_Inr[OF e]
  have neq: "a \<noteq> next_free h"
    using assms(3,4) by (auto simp: heap_ok_def)
  show "b' = b\<lparr>bt_head := Some (next_free h), bt_index := 1\<rparr>"
    using p ex(1) by simp
  show "chunks h' = (chunks h)
           (a \<mapsto> c\<lparr>trace_next := Some (next_free h)\<rparr>,
            next_free h \<mapsto>
              put_frame 0 m (if bci = SynchronizationEntryBCI then 0 else bci) new_chunk)"
    using p ex(1,2) assms(2,3) by (auto simp: obj_at_put_def)
  show "next_free h' = next_free h + 5"
    using p ex(1,2,3) assms(2,3) by (auto simp: obj_at_put_def)
  show "booleans h' = booleans h"
    using p ex(1,2,5) assms(2,3) by (auto simp: obj_at_put_def)
qed

lemma recorded_push:
  assumes "recorded h b xs" and "push b m bci h = (Inr b', h')"
  shows "recorded h' b' (xs @ [(m, bci)])"
proof -
  let ?bci = "if bci = SynchronizationEntryBCI then 0 else bci"
  from assms(1) obtain cs where inv: "bt_inv h b cs" and xs: "concat (map snd cs) = xs"
    by (auto simp: recorded_def)
  from inv have ne: "cs \<noteq> []" by (simp add: bt_inv_def)
  then obtain cs0 a fs where cs: "cs = cs0 @ [(a, fs)]"
    by (metis rev_exhaust surj_pair)
  from inv have p: "path h (bt_backtrace b) (cs0 @ [(a, fs)]) None"
    and hd: "bt_head b = Some a" and ix: "bt_index b = int (length fs)"
    and full: "\<forall>(a, fs) \<in> set cs0. length fs = nat trace_chunk_size"
    and dist: "distinct (map fst cs0)" "a \<notin> fst ` set cs0" and ok: "heap_ok h"
    and mk: "hidden_marker h (bt_backtrace b) = bt_has_hidden_top_frame b"
    by (auto simp: bt_inv_def cs)
  from p obtain f where f: "bt_backtrace b = Some f" "f \<in> fst ` set cs"
    by (cases cs0) (auto simp: cs)
  have f_lt: "f < next_free h"
    using path_below_next_free[OF p ok] f(2) by (simp add: cs)
  from path_last[OF p] obtain c where
    c: "chunks h a = Some c" "chunk_holds c fs" "trace_next c = None"
       "path h (bt_backtrace b) cs0 (Some a)"
    by auto
  have fs_le: "length fs \<le> nat trace_chunk_size"
    using c(2) by (simp add: chunk_holds_def)
  show ?thesis
  proof (cases "bt_index b < trace_chunk_size")
    case True
    let ?c = "put_frame (bt_index b) m ?bci c"
    from push_below_chunk_size[OF True hd c(1), of m bci] assms(2)
    have b': "b' = b\<lparr>bt_index := bt_index b + 1\<rparr>"
      and h': "h' = h\<lparr>chunks := (chunks h)(a \<mapsto> ?c)\<rparr>"
      by simp_all
    have lt: "length fs < nat trace_chunk_size" using True ix by simp
    have holds: "chunk_holds ?c (fs @ [(m, bci)])"
      using chunk_holds_put_frame[OF c(2) lt, of m bci] ix by simp
    have nx: "trace_next ?c = None" using c(3) by (simp add: put_frame_def)
    have "path h' (bt_backtrace b) cs0 (Some a) = path h (bt_backtrace b) cs0 (Some a)"
      by (rule path_cong) (use dist(2) in \<open>force simp: h'\<close>)
    then have p0: "path h' (bt_backtrace b') cs0 (Some a)"
      using c(4) by (simp add: b')
    have p1: "path h' (bt_backtrace b') (cs0 @ [(a, fs @ [(m, bci)])]) None"
      using p0 holds nx by (simp add: path_append h')
    have ok': "heap_ok h'"
      using ok c(1) by (auto simp: heap_ok_def h')
    have mk': "hidden_marker h' (bt_backtrace b') = bt_has_hidden_top_frame b'"
      using mk c(1) by (auto simp: hidden_marker_def h' b' f(1) put_frame_def)
    have "bt_inv h' b' (cs0 @ [(a, fs @ [(m, bci)])])"
      unfolding bt_inv_def using p1 hd ix full dist ok' mk' by (simp add: b')
    then show ?thesis
      using xs by (auto simp: recorded_def cs intro!: exI[of _ "cs0 @ [(a, fs @ [(m, bci)])]"])
  next
    case False
    then have ge: "trace_chunk_size \<le> bt_index b" by simp
    then have fs_full: "length fs = nat trace_chunk_size" using ix fs_le by simp
    let ?n = "next_free h"
    let ?c = "put_frame 0 m ?bci new_chunk"
    note pu = push_at_chunk_size[OF ge hd c(1) ok assms(2)]
    have fresh: "?n \<notin> fst ` set cs0" "?n \<noteq> a"
      using path_below_next_free[OF p ok, of ?n] by auto
    have "path h' (bt_backtrace b) cs0 (Some a) = path h (bt_backtrace b) cs0 (Some a)"
      by (rule path_cong) (use dist(2) fresh(1) in \<open>force simp: pu(2)\<close>)
    then have p0: "path h' (bt_backtrace b') cs0 (Some a)"
      using c(4) by (simp add: pu(1))
    have holds: "chunk_holds ?c [(m, bci)]"
      using chunk_holds_put_frame[OF chunk_holds_new_chunk, of m bci]
      by (simp add: trace_chunk_size_def)
    have nx: "trace_next ?c = None" by (simp add: put_frame_def new_chunk_def)
    have p1: "path h' (bt_backtrace b') (cs @ [(?n, [(m, bci)])]) None"
      using p0 holds nx c(2) fresh(2) by (simp add: path_append cs pu(2))
    have a_lt: "a < next_free h"
      using ok c(1) by (rule_tac ccontr) (simp add: heap_ok_def not_less)
    have ok': "heap_ok h'"
      using ok a_lt by (auto simp: heap_ok_def pu(2,3))
    have full': "\<forall>(a, fs) \<in> set (butlast (cs @ [(?n, [(m, bci)])])). length fs = nat trace_chunk_size"
      using full fs_full by (simp only: butlast_snoc) (auto simp: cs)
    have dist': "distinct (map fst (cs @ [(?n, [(m, bci)])]))"
      using dist fresh by (auto simp: cs)
    have mk': "hidden_marker h' (bt_backtrace b') = bt_has_hidden_top_frame b'"
      using mk c(1) f_lt by (auto simp: hidden_marker_def pu(1,2) f(1))
    have "bt_inv h' b' (cs @ [(?n, [(m, bci)])])"
      unfolding bt_inv_def using p1 full' dist' ok' mk' by (simp add: pu(1))
    then show ?thesis
      using xs by (auto simp: recorded_def intro!: exI[of _ "cs @ [(?n, [(m, bci)])]"])
  qed
qed

lemma recorded_new_BacktraceBuilder:
  assumes "heap_ok h" and "new_BacktraceBuilder h = (Inr b, h')"
  shows "recorded h' b []" and "bt_has_hidden_top_frame b = None"
proof -
  from assms(2) obtain b1 where
    e: "expand \<lparr>bt_backtrace = None, bt_head = None,
                 bt_has_hidden_top_frame = None, bt_index = 0\<rparr> h = (Inr b1, h')"
    and b: "b = b1\<lparr>bt_backtrace := bt_head b1, bt_index := 0\<rparr>"
    by (auto simp: new_BacktraceBuilder_def CHECK_Inr)
  note ex = expand_Inr[OF e]
  have ok': "heap_ok h'"
    using assms(1) by (auto simp: heap_ok_def ex(2,3))
  have "bt_inv h' b [(next_free h, [])]"
    unfolding bt_inv_def using ok'
    by (simp add: b ex(1,2) chunk_holds_new_chunk hidden_marker_def) (simp add: new_chunk_def)
  then show "recorded h' b []"
    by (auto simp: recorded_def intro!: exI[of _ "[(next_free h, [])]"])
  show "bt_has_hidden_top_frame b = None"
    by (simp add: b ex(1))
qed

lemma recorded_Nil_head:
  assumes "recorded h b []"
  shows "bt_head b = bt_backtrace b"
proof -
  from assms obtain cs where inv: "bt_inv h b cs" and e: "concat (map snd cs) = []"
    by (auto simp: recorded_def)
  from inv obtain cs0 a fs where cs: "cs = cs0 @ [(a, fs)]"
    by (metis bt_inv_def rev_exhaust surj_pair)
  have "cs0 = []"
  proof (rule ccontr)
    assume "cs0 \<noteq> []"
    then obtain a' fs' where "(a', fs') \<in> set cs0" by (cases cs0) auto
    then have "length fs' = nat trace_chunk_size" "fs' = []"
      using inv e by (auto simp: bt_inv_def cs)
    then show False by (simp add: trace_chunk_size_def)
  qed
  then show ?thesis
    using inv by (auto simp: bt_inv_def cs split: option.splits)
qed

lemma path_trace_hidden:
  assumes "chunks h a = Some c" and "chunks h' = (chunks h)(a \<mapsto> c\<lparr>trace_hidden := x\<rparr>)"
  shows "path h' p cs q = path h p cs q"
proof (induction cs arbitrary: p)
  case Nil
  show ?case by simp
next
  case (Cons d ds)
  obtain a' fs' where d: "d = (a', fs')" by (cases d)
  show ?case
  proof (cases "a' = a")
    case True
    then show ?thesis using assms by (simp add: d Cons.IH)
  next
    case False
    then show ?thesis using assms(2) by (simp add: d Cons.IH split: option.splits)
  qed
qed

lemma recorded_set_has_hidden_top_frame:
  assumes "recorded h b []" and "set_has_hidden_top_frame b h = (Inr b', h')"
  shows "recorded h' b' []" and "bt_has_hidden_top_frame b' \<noteq> None"
proof -
  from assms(1) obtain cs where inv: "bt_inv h b cs" and e: "concat (map snd cs) = []"
    by (auto simp: recorded_def)
  have hb: "bt_head b = bt_backtrace b" by (rule recorded_Nil_head[OF assms(1)])
  from inv obtain a where a: "bt_head b = Some a" "a \<in> fst ` set cs"
    by (cases cs rule: rev_cases) (auto simp: bt_inv_def)
  from inv have p: "path h (bt_backtrace b) cs None" and ok: "heap_ok h"
    by (auto simp: bt_inv_def)
  from path_chunks[OF p a(2)] obtain c where c: "chunks h a = Some c" by auto
  show "bt_has_hidden_top_frame b' \<noteq> None"
    using assms(2)
    by (auto simp: set_has_hidden_top_frame_def CHECK_Inr allocate_Inr Let_def split: if_splits)
  show "recorded h' b' []"
  proof (cases "bt_has_hidden_top_frame b = None")
    case False
    then show ?thesis
      using assms by (auto simp: set_has_hidden_top_frame_def)
  next
    case True
    let ?p = "next_free h"
    from True assms(2) have b': "b' = b\<lparr>bt_has_hidden_top_frame := Some ?p\<rparr>"
      and ch: "chunks h' = (chunks h)(a \<mapsto> c\<lparr>trace_hidden := Some ?p\<rparr>)"
      and nf: "next_free h' = Suc (next_free h)"
      by (auto simp: set_has_hidden_top_frame_def CHECK_Inr allocate_Inr Let_def a(1) c
          obj_at_put_def)
    have pc: "path h' p cs q = path h p cs q" for p q
      by (rule path_trace_hidden[OF c ch])
    have ok': "heap_ok h'"
      using ok c by (auto simp: heap_ok_def ch nf)
    have "bt_inv h' b' cs"
      using inv unfolding bt_inv_def
      by (simp add: pc ok' b') (simp add: hidden_marker_def hb[symmetric] a(1) ch)
    then show ?thesis using e by (auto simp: recorded_def)
  qed
qed

lemma recorded_elements:
  assumes "recorded h b xs"
  shows "elements h (new_BacktraceIterator (bt_backtrace b)) = Some (map element_of xs)"
proof -
  from assms obtain cs where inv: "bt_inv h b cs" and xs: "concat (map snd cs) = xs"
    by (auto simp: recorded_def)
  from inv obtain a fs cs' where cs: "cs = (a, fs) # cs'"
    by (cases cs) (auto simp: bt_inv_def)
  from inv have p: "path h (bt_backtrace b) ((a, fs) # cs') None"
    and full: "\<forall>(a', fs') \<in> set (butlast ((a, fs) # cs')). length fs' = nat trace_chunk_size"
    by (auto simp: bt_inv_def cs)
  from p have bb: "bt_backtrace b = Some a" by simp
  have "elements h \<lparr>it_index = int 0, it_result = Some a\<rparr> =
          Some (map element_of (drop 0 fs @ concat (map snd cs')))"
    by (rule elements_path[OF _ full]) (use p bb in \<open>simp_all add: trace_chunk_size_def\<close>)
  then show ?thesis
    using xs[symmetric] by (simp add: new_BacktraceIterator_def init_def bb cs)
qed

lemma recorded_hidden_marker:
  assumes "recorded h b xs"
  shows "hidden_marker h (bt_backtrace b) = bt_has_hidden_top_frame b"
  using assms by (auto simp: recorded_def bt_inv_def)

section \<open>The loop over the stack, frame by frame\<close>

lemma run_frames_limit:
  "\<not> (MaxJavaStackTraceDepth fl = 0 \<or> MaxJavaStackTraceDepth fl \<noteq> total_count s) \<Longrightarrow>
   run_frames fl t fs s h = (Inr s, h)"
  by (cases fs) auto

lemma walk_run_frames:
  "walk fl t fr decode s h = run_frames fl t (decode @ logical_frames fr) s h"
proof (induction fl t fr decode s h rule: walk.induct)
  case (1 fl t fr decode s h)
  show ?case
  proof (cases "MaxJavaStackTraceDepth fl = 0 \<or> MaxJavaStackTraceDepth fl \<noteq> total_count s")
    case False
    then show ?thesis
      by (subst walk.simps) (simp add: run_frames_limit Let_def)
  next
    case go: True
    show ?thesis
    proof (cases decode)
      case (Cons d ds)
      obtain m bci where d: "d = (m, bci)" by (cases d)
      have "walk fl t fr ds = run_frames fl t (ds @ logical_frames fr)"
        by (intro ext) (use "1.IH"(5)[OF refl go Cons d[symmetric]] in simp)
      then show ?thesis
        using go by (subst walk.simps) (simp add: Cons d Let_def)
    next
      case Nil
      show ?thesis
      proof (cases fr)
        case Nil': Nil
        then show ?thesis using Nil by (subst walk.simps) (simp add: logical_frames_def Let_def)
      next
        case (Cons f fr')
        show ?thesis
        proof (cases f)
          case (Interpreted m bci)
          have "walk fl t fr' [] = run_frames fl t ([] @ logical_frames fr')"
            by (intro ext) (use "1.IH"(1)[OF refl go Nil Cons Interpreted] in simp)
          then show ?thesis
            using go by (subst walk.simps) (simp add: Nil Cons Interpreted Let_def logical_frames_def)
        next
          case (Compiled_native m)
          have "walk fl t fr' [] = run_frames fl t ([] @ logical_frames fr')"
            by (intro ext) (use "1.IH"(2)[OF refl go Nil Cons Compiled_native] in simp)
          then show ?thesis
            using go by (subst walk.simps) (simp add: Nil Cons Compiled_native Let_def logical_frames_def)
        next
          case (Compiled_java scopes)
          have "walk fl t fr' scopes s h = run_frames fl t (scopes @ logical_frames fr') s h"
            using "1.IH"(3)[OF refl go Nil Cons Compiled_java] by simp
          then show ?thesis
            using go by (subst walk.simps) (simp add: Nil Cons Compiled_java Let_def logical_frames_def)
        next
          case Not_compiled
          have "walk fl t fr' [] s h = run_frames fl t ([] @ logical_frames fr') s h"
            using "1.IH"(4)[OF refl go Nil Cons Not_compiled] by simp
          then show ?thesis
            using go by (subst walk.simps) (simp add: Nil Cons Not_compiled Let_def logical_frames_def)
        qed
      qed
    qed
  qed
qed

section \<open>The loop follows the elision policy\<close>

lemma select_True_True: "select fl t True True fs = filter (\<lambda>f. \<not> suppressed fl f) fs"
  by (induction fs) auto

lemma select_True_False:
  "select fl t True False fs =
     filter (\<lambda>f. \<not> suppressed fl f) (dropWhile (is_constructor_frame t) fs)"
  by (induction fs) (auto simp: select_True_True)

lemma select_surviving: "select fl t False False fs = surviving fl t fs"
  by (induction fs) (auto simp: surviving_def after_elision_def select_True_False select_True_True)

lemma marks_True_False:
  "marks fl t True False fs =
     (case dropWhile (is_constructor_frame t) fs of [] \<Rightarrow> False | f # _ \<Rightarrow> suppressed fl f)"
  by (induction fs) auto

lemma marks_top_hidden: "marks fl t False False fs = top_hidden fl t fs"
  by (induction fs) (auto simp: top_hidden_def after_elision_def marks_True_False)

lemma filter_and_push_cases:
  "filter_and_push fl t m bci s h =
     (if \<not> skip_fillInStackTrace_check s \<and> is_filler_frame t (m, bci) then (Inr s, h)
      else if \<not> skip_throwableInit_check s \<and> is_constructor_frame t (m, bci) then
        (Inr (s\<lparr>skip_fillInStackTrace_check := True\<rparr>), h)
      else if suppressed fl (m, bci) then
        (if total_count s = 0 then
           CHECK (set_has_hidden_top_frame (bt s) h) (\<lambda>b h.
             (Inr (s\<lparr>skip_fillInStackTrace_check := True,
                     skip_throwableInit_check := True, bt := b\<rparr>), h))
         else (Inr (s\<lparr>skip_fillInStackTrace_check := True,
                      skip_throwableInit_check := True\<rparr>), h))
      else
        CHECK (push (bt s) m bci h) (\<lambda>b h.
          (Inr (s\<lparr>skip_fillInStackTrace_check := True, skip_throwableInit_check := True,
                  bt := b, total_count := total_count s + 1\<rparr>), h)))"
  by (cases s)
    (simp add: filter_and_push_def Let_def is_filler_frame_def is_constructor_frame_def
      suppressed_def)

lemma limit_Cons:
  assumes "MaxJavaStackTraceDepth fl \<le> 0 \<or> int n < MaxJavaStackTraceDepth fl"
  shows "limit fl n (y # ys) = y # limit fl (Suc n) ys"
proof (cases "0 < MaxJavaStackTraceDepth fl")
  case True
  then have "nat (MaxJavaStackTraceDepth fl) - n = Suc (nat (MaxJavaStackTraceDepth fl) - Suc n)"
    using assms by linarith
  then show ?thesis using True by (simp add: limit_def)
next
  case False
  then show ?thesis by (simp add: limit_def)
qed

lemma limit_reached:
  assumes "0 < MaxJavaStackTraceDepth fl" and "MaxJavaStackTraceDepth fl = int n"
  shows "limit fl n ys = []"
  using assms by (simp add: limit_def)

lemma run_frames_recorded:
  assumes "run_frames fl t fs s h = (Inr s', h')"
    and "recorded h (bt s) xs" and "total_count s = int (length xs)"
    and "MaxJavaStackTraceDepth fl \<le> 0 \<or> int (length xs) \<le> MaxJavaStackTraceDepth fl"
  shows "recorded h' (bt s')
           (xs @ limit fl (length xs)
                   (select fl t (skip_fillInStackTrace_check s) (skip_throwableInit_check s) fs)) \<and>
         total_count s' =
           int (length (xs @ limit fl (length xs)
                   (select fl t (skip_fillInStackTrace_check s) (skip_throwableInit_check s) fs))) \<and>
         (bt_has_hidden_top_frame (bt s') \<noteq> None \<longleftrightarrow>
            bt_has_hidden_top_frame (bt s) \<noteq> None \<or>
            xs = [] \<and> marks fl t (skip_fillInStackTrace_check s) (skip_throwableInit_check s) fs)"
  using assms
proof (induction fs arbitrary: s h xs)
  case Nil
  then show ?case by (simp add: limit_def)
next
  case (Cons f fs)
  obtain m bci where f: "f = (m, bci)" by (cases f)
  let ?D = "MaxJavaStackTraceDepth fl"
  show ?case
  proof (cases "?D = 0 \<or> ?D \<noteq> total_count s")
    case False
    then have stop: "0 < ?D" "?D = int (length xs)"
      using Cons.prems(3) by auto
    have "s' = s" "h' = h"
      using Cons.prems(1) False by (simp_all add: f)
    moreover have "xs \<noteq> []" using stop by auto
    moreover have "limit fl (length xs) ys = []" for ys :: "(Method \<times> int) list"
      by (rule limit_reached[OF stop])
    ultimately show ?thesis
      using Cons.prems(2,3) by (simp del: select.simps marks.simps)
  next
    case go: True
    then have room: "?D \<le> 0 \<or> int (length xs) < ?D"
      using Cons.prems(3,4) by auto
    from Cons.prems(1) go obtain s1 h1 where
      step: "filter_and_push fl t m bci s h = (Inr s1, h1)" and
      rest: "run_frames fl t fs s1 h1 = (Inr s', h')"
      by (auto simp: f CHECK_Inr)
    consider
      (filler) "\<not> skip_fillInStackTrace_check s" "is_filler_frame t f"
    | (init) "\<not> (\<not> skip_fillInStackTrace_check s \<and> is_filler_frame t f)"
        "\<not> skip_throwableInit_check s" "is_constructor_frame t f"
    | (hidden) "\<not> (\<not> skip_fillInStackTrace_check s \<and> is_filler_frame t f)"
        "\<not> (\<not> skip_throwableInit_check s \<and> is_constructor_frame t f)" "suppressed fl f"
    | (pushed) "\<not> (\<not> skip_fillInStackTrace_check s \<and> is_filler_frame t f)"
        "\<not> (\<not> skip_throwableInit_check s \<and> is_constructor_frame t f)" "\<not> suppressed fl f"
      by blast
    then show ?thesis
    proof cases
      case filler
      then have "s1 = s" "h1 = h"
        using step by (simp_all add: filter_and_push_cases f)
      then show ?thesis
        using Cons.IH[OF _ Cons.prems(2,3,4)] rest filler by simp
    next
      case init
      then have s1: "s1 = s\<lparr>skip_fillInStackTrace_check := True\<rparr>" "h1 = h"
        using step by (auto simp: filter_and_push_cases f)
      have "skip_fillInStackTrace_check s \<or> \<not> is_filler_frame t f"
        using init(1) by blast
      then show ?thesis
        using Cons.IH[of s1 h1 xs] rest Cons.prems(2,3,4) init(2,3) by (auto simp: s1)
    next
      case hidden
      show ?thesis
      proof (cases "total_count s = 0")
        case True
        then have xs: "xs = []" using Cons.prems(3) by simp
        from step hidden True obtain b where
          b: "set_has_hidden_top_frame (bt s) h = (Inr b, h1)" and
          s1: "s1 = s\<lparr>skip_fillInStackTrace_check := True,
                       skip_throwableInit_check := True, bt := b\<rparr>"
          by (auto simp: filter_and_push_cases f CHECK_Inr)
        have rec: "recorded h1 (bt s1) []" "bt_has_hidden_top_frame (bt s1) \<noteq> None"
          using recorded_set_has_hidden_top_frame[OF _ b] Cons.prems(2) by (simp_all add: xs s1)
        show ?thesis
          using Cons.IH[OF rest, of "[]"] rec Cons.prems(3,4) hidden by (auto simp: xs s1)
      next
        case False
        then have xs: "xs \<noteq> []" using Cons.prems(3) by auto
        from step hidden False have
          s1: "s1 = s\<lparr>skip_fillInStackTrace_check := True,
                       skip_throwableInit_check := True\<rparr>" "h1 = h"
          by (auto simp: filter_and_push_cases f)
        show ?thesis
          using Cons.IH[of s1 h1 xs] rest Cons.prems(2,3,4) hidden xs by (auto simp: s1)
      qed
    next
      case pushed
      from step pushed obtain b where
        b: "push (bt s) m bci h = (Inr b, h1)" and
        s1: "s1 = s\<lparr>skip_fillInStackTrace_check := True, skip_throwableInit_check := True,
                     bt := b, total_count := total_count s + 1\<rparr>"
        by (auto simp: filter_and_push_cases f CHECK_Inr)
      have rec: "recorded h1 (bt s1) (xs @ [f])"
        using recorded_push[OF Cons.prems(2) b] by (simp add: s1 f)
      have mk: "bt_has_hidden_top_frame b = bt_has_hidden_top_frame (bt s)"
        using b by (auto simp: push_def CHECK_Inr expand_Inr Let_def split: if_splits dest: expand_Inr(1))
      have cnt: "total_count s1 = int (length (xs @ [f]))"
        using Cons.prems(3) by (simp add: s1)
      have room': "?D \<le> 0 \<or> int (length (xs @ [f])) \<le> ?D"
        using room by auto
      have sel: "select fl t (skip_fillInStackTrace_check s) (skip_throwableInit_check s) (f # fs) =
                   f # select fl t True True fs"
        using pushed by auto
      have mrk: "\<not> marks fl t (skip_fillInStackTrace_check s) (skip_throwableInit_check s) (f # fs)"
        using pushed by auto
      show ?thesis
        using Cons.IH[OF rest rec cnt room'] mk mrk
        unfolding sel limit_Cons[OF room] by (simp add: s1)
    qed
  qed
qed

section \<open>With enough heap a capture returns normally\<close>

lemma allocate_succeeds:
  "0 < allocs_left h \<Longrightarrow>
   allocate h = (Inr (next_free h),
                 h\<lparr>next_free := Suc (next_free h), allocs_left := allocs_left h - 1\<rparr>)"
  by (simp add: allocate_def)







section \<open>A fresh capture\<close>

lemma elision_cleared:
  "is_filler_frame (t\<lparr>backtrace := b\<rparr>) = is_filler_frame t"
  "is_filler_frame (t\<lparr>stackTrace := st\<rparr>) = is_filler_frame t"
  "is_constructor_frame (t\<lparr>backtrace := b\<rparr>) = is_constructor_frame t"
  "is_constructor_frame (t\<lparr>stackTrace := st\<rparr>) = is_constructor_frame t"
  by (simp_all add: fun_eq_iff is_filler_frame_def is_constructor_frame_def is_a_def)

text \<open>
  What a capture that walks the stack and returns normally leaves: the depth, the
  elements that iteration yields, and the marker of the backtrace.
\<close>

lemma capture_recorded:
  assumes "fill_in_stack_trace_TRAPS fl thread t method h = (Inr (), t', h')"
    and "StackTraceInThrowable fl" and "has_last_Java_frame thread" and "heap_ok h"
  shows "depth t' =
           int (length (limit fl 0 (surviving fl t (logical_frames (last_frame thread)))))"
    and "elements h' (new_BacktraceIterator (backtrace t')) =
           Some (map element_of (limit fl 0 (surviving fl t (logical_frames (last_frame thread)))))"
    and "hidden_marker h' (backtrace t') \<noteq> None \<longleftrightarrow>
           top_hidden fl t (logical_frames (last_frame thread))"
proof -
  let ?t = "t\<lparr>backtrace := None, stackTrace := None\<rparr>"
  let ?fs = "logical_frames (last_frame thread)"
  from assms(1,2,3) obtain b h1 s where
    nb: "new_BacktraceBuilder h = (Inr b, h1)" and
    w: "walk fl ?t (last_frame thread) []
          \<lparr>total_count = 0, skip_fillInStackTrace_check = False,
           skip_throwableInit_check = False, bt = b\<rparr> h1 = (Inr s, h')" and
    t': "t' = ?t\<lparr>backtrace := bt_backtrace (bt s), depth := total_count s\<rparr>"
    by (auto simp: fill_in_stack_trace_TRAPS_def Let_def split: prod.splits sum.splits)
  note rb = recorded_new_BacktraceBuilder[OF assms(4) nb]
  have r: "run_frames fl ?t ?fs
             \<lparr>total_count = 0, skip_fillInStackTrace_check = False,
              skip_throwableInit_check = False, bt = b\<rparr> h1 = (Inr s, h')"
    using w by (simp add: walk_run_frames)
  have room: "MaxJavaStackTraceDepth fl \<le> 0 \<or>
              int (length ([] :: (Method \<times> int) list)) \<le> MaxJavaStackTraceDepth fl"
    by auto
  from run_frames_recorded[OF r _ _ room] rb
  have rec: "recorded h' (bt s) (limit fl 0 (surviving fl ?t ?fs))"
    and cnt: "total_count s = int (length (limit fl 0 (surviving fl ?t ?fs)))"
    and mk: "bt_has_hidden_top_frame (bt s) \<noteq> None \<longleftrightarrow> top_hidden fl ?t ?fs"
    by (simp_all add: select_surviving marks_top_hidden)
  have sv: "surviving fl ?t = surviving fl t" "top_hidden fl ?t = top_hidden fl t"
    by (simp_all add: surviving_def top_hidden_def after_elision_def elision_cleared fun_eq_iff)
  show "depth t' = int (length (limit fl 0 (surviving fl t ?fs)))"
    using cnt by (simp add: t' sv)
  show "elements h' (new_BacktraceIterator (backtrace t')) =
          Some (map element_of (limit fl 0 (surviving fl t ?fs)))"
    using recorded_elements[OF rec] by (simp add: t' sv)
  show "hidden_marker h' (backtrace t') \<noteq> None \<longleftrightarrow> top_hidden fl t ?fs"
    using recorded_hidden_marker[OF rec] mk by (simp add: t' sv)
qed



text \<open>
  With no Java frame, a method supplied and a maximum depth of at least 1, a capture
  that returns normally has recorded the one frame of that method at bci 0.
\<close>

lemma no_java_frame_pushes_one:
  assumes "fill_in_stack_trace_TRAPS fl thread t (Some m) h = (Inr (), t', h')"
    and "StackTraceInThrowable fl" and "\<not> has_last_Java_frame thread" and "heap_ok h"
    and "1 \<le> MaxJavaStackTraceDepth fl"
  shows "depth t' = 1 \<and>
         elements h' (new_BacktraceIterator (backtrace t')) = Some [element_of (m, 0)]"
proof -
  from assms(1,2,3,5) obtain b h1 b' where
    nb: "new_BacktraceBuilder h = (Inr b, h1)" and
    p: "push b m 0 h1 = (Inr b', h')" and
    t': "t' = t\<lparr>backtrace := None, stackTrace := None, depth := 1, backtrace := bt_backtrace b'\<rparr>"
    by (auto simp: fill_in_stack_trace_TRAPS_def Let_def split: prod.splits sum.splits)
  have "recorded h' b' ([] @ [(m, 0)])"
    by (rule recorded_push[OF recorded_new_BacktraceBuilder(1)[OF assms(4) nb] p])
  from recorded_elements[OF this] show ?thesis
    by (simp add: t')
qed

section \<open>Hidden frames\<close>




section \<open>The two flags of the elision\<close>

lemma filter_and_push_flags:
  assumes "filter_and_push fl t m bci s h = (Inr s1, h1)"
  shows "(skip_fillInStackTrace_check s \<longrightarrow> skip_fillInStackTrace_check s1) \<and>
         (skip_throwableInit_check s \<longrightarrow> skip_throwableInit_check s1) \<and>
         (\<not> is_filler_frame t (m, bci) \<longrightarrow> skip_fillInStackTrace_check s1) \<and>
         ((skip_fillInStackTrace_check s \<or> \<not> is_filler_frame t (m, bci)) \<and>
          \<not> is_constructor_frame t (m, bci) \<longrightarrow> skip_throwableInit_check s1) \<and>
         (skip_fillInStackTrace_check s \<and> skip_throwableInit_check s \<and>
          \<not> suppressed fl (m, bci) \<longrightarrow>
            total_count s1 = total_count s + 1 \<and> push (bt s) m bci h = (Inr (bt s1), h1))"
  using assms by (auto simp: filter_and_push_cases CHECK_Inr split: if_splits)

lemma run_frames_flags:
  assumes "run_frames fl t fs s h = (Inr s', h')"
  shows "(skip_fillInStackTrace_check s \<longrightarrow> skip_fillInStackTrace_check s') \<and>
         (skip_throwableInit_check s \<longrightarrow> skip_throwableInit_check s')"
  using assms
proof (induction fs arbitrary: s h)
  case Nil
  then show ?case by simp
next
  case (Cons f fs)
  obtain m bci where f: "f = (m, bci)" by (cases f)
  show ?case
  proof (cases "MaxJavaStackTraceDepth fl = 0 \<or> MaxJavaStackTraceDepth fl \<noteq> total_count s")
    case False
    then show ?thesis using Cons.prems by (simp add: f)
  next
    case True
    with Cons.prems obtain s1 h1 where
      step: "filter_and_push fl t m bci s h = (Inr s1, h1)" and
      rest: "run_frames fl t fs s1 h1 = (Inr s', h')"
      by (auto simp: f CHECK_Inr)
    show ?thesis
      using filter_and_push_flags[OF step] Cons.IH[OF rest] by blast
  qed
qed

text \<open>
  C6: the two flags \<^verbatim>\<open>skip_fillInStackTrace_check\<close> and \<^verbatim>\<open>skip_throwableInit_check\<close> are
  false while the filler frames, and the constructor frames, are still being skipped.
  In one step of the loop a flag that is set stays set, the first is set by a frame that
  is no filler frame, the second by a frame that passed the first test and is no
  constructor frame, and with both set a frame that is not a suppressed hidden frame is
  pushed whatever its name. Over the rest of the loop a flag that is set stays set. And
  a fresh capture, which starts with both flags false, records (up to the maximum depth)
  the frames that are not suppressed of what is left after dropping the leading filler
  frames and then the leading constructor frames: a later frame is kept even if it
  matches.
\<close>

theorem elision_flags_monotone:
  "(filter_and_push fl t m bci s h = (Inr s1, h1) \<longrightarrow>
      (skip_fillInStackTrace_check s \<longrightarrow> skip_fillInStackTrace_check s1) \<and>
      (skip_throwableInit_check s \<longrightarrow> skip_throwableInit_check s1) \<and>
      (\<not> is_filler_frame t (m, bci) \<longrightarrow> skip_fillInStackTrace_check s1) \<and>
      ((skip_fillInStackTrace_check s \<or> \<not> is_filler_frame t (m, bci)) \<and>
       \<not> is_constructor_frame t (m, bci) \<longrightarrow> skip_throwableInit_check s1) \<and>
      (skip_fillInStackTrace_check s \<and> skip_throwableInit_check s \<and>
       \<not> suppressed fl (m, bci) \<longrightarrow>
         total_count s1 = total_count s + 1 \<and> push (bt s) m bci h = (Inr (bt s1), h1))) \<and>
   (walk fl t fr decode s h = (Inr s', h') \<longrightarrow>
      (skip_fillInStackTrace_check s \<longrightarrow> skip_fillInStackTrace_check s') \<and>
      (skip_throwableInit_check s \<longrightarrow> skip_throwableInit_check s')) \<and>
   (fill_in_stack_trace_TRAPS fl thread t method h0 = (Inr (), t', h0') \<and>
    StackTraceInThrowable fl \<and> has_last_Java_frame thread \<and> heap_ok h0 \<longrightarrow>
      elements h0' (new_BacktraceIterator (backtrace t')) =
        Some (map element_of (limit fl 0
          (filter (\<lambda>f. \<not> suppressed fl f)
             (dropWhile (is_constructor_frame t)
                (dropWhile (is_filler_frame t) (logical_frames (last_frame thread))))))))"
proof (intro conjI impI)
  assume "fill_in_stack_trace_TRAPS fl thread t method h0 = (Inr (), t', h0') \<and>
          StackTraceInThrowable fl \<and> has_last_Java_frame thread \<and> heap_ok h0"
  then have a: "fill_in_stack_trace_TRAPS fl thread t method h0 = (Inr (), t', h0')"
    "StackTraceInThrowable fl" "has_last_Java_frame thread" "heap_ok h0"
    by simp_all
  show "elements h0' (new_BacktraceIterator (backtrace t')) =
        Some (map element_of (limit fl 0
          (filter (\<lambda>f. \<not> suppressed fl f)
             (dropWhile (is_constructor_frame t)
                (dropWhile (is_filler_frame t) (logical_frames (last_frame thread)))))))"
    using capture_recorded(2)[OF a] by (simp add: surviving_def after_elision_def)
qed (use filter_and_push_flags[of fl t m bci s h s1 h1]
         run_frames_flags[of fl t "decode @ logical_frames fr" s h s' h']
     in \<open>simp_all add: walk_run_frames\<close>)

theorem elision_flags_monotone_witness:
  "skip_fillInStackTrace_check past_elision \<and> skip_throwableInit_check past_elision \<and>
   is_constructor_frame example_throwable (example_method ''<init>'' 100 False, 9) \<and>
   \<not> suppressed (example_flags 0) (example_method ''<init>'' 100 False, 9) \<and>
   \<not> isl (fst (filter_and_push (example_flags 0) example_throwable
                 (example_method ''<init>'' 100 False) 9 past_elision (snd one_chunk))) \<and>
   total_count (projr (fst (filter_and_push (example_flags 0) example_throwable
                 (example_method ''<init>'' 100 False) 9 past_elision (snd one_chunk)))) = 1 \<and>
   \<not> isl (fst (walk (example_flags 0) example_throwable example_stack [] past_elision
                 (snd one_chunk))) \<and>
   skip_fillInStackTrace_check
     (projr (fst (walk (example_flags 0) example_throwable example_stack [] past_elision
                 (snd one_chunk)))) \<and>
   skip_throwableInit_check
     (projr (fst (walk (example_flags 0) example_throwable example_stack [] past_elision
                 (snd one_chunk)))) \<and>
   StackTraceInThrowable (example_flags 0) \<and>
   has_last_Java_frame (example_thread example_stack) \<and>
   heap_ok (empty_heap 10) \<and>
   fst (fill_in_stack_trace_TRAPS (example_flags 0) (example_thread example_stack)
          example_throwable None (empty_heap 10)) = Inr () \<and>
   elements
     (snd (snd (fill_in_stack_trace_TRAPS (example_flags 0) (example_thread example_stack)
          example_throwable None (empty_heap 10))))
     (new_BacktraceIterator
        (backtrace (fst (snd (fill_in_stack_trace_TRAPS (example_flags 0)
          (example_thread example_stack) example_throwable None (empty_heap 10)))))) =
     Some (map element_of
       [(example_method ''run'' 11 False, 3),
        (example_method ''<init>'' 100 False, 9),
        (example_method ''fillInStackTrace'' 101 False, - 1)])"
proof -
  let ?F = "example_flags 0" and ?T = example_throwable
  let ?M = "example_method ''<init>'' 100 False"
  let ?step = "filter_and_push ?F ?T ?M 9 past_elision (snd one_chunk)"
  let ?walk = "walk ?F ?T example_stack [] past_elision (snd one_chunk)"
  let ?R = "fill_in_stack_trace_TRAPS ?F (example_thread example_stack) ?T None (empty_heap 10)"
  have flags: "skip_fillInStackTrace_check past_elision" "skip_throwableInit_check past_elision"
    by (simp_all add: past_elision_def)
  have frame: "is_constructor_frame ?T (?M, 9)" "\<not> suppressed ?F (?M, 9)"
    by code_simp+
  have stp: "\<not> isl (fst ?step)" by code_simp
  have wlk: "\<not> isl (fst ?walk)" by code_simp
  have ok: "fst ?R = Inr ()" by code_simp
  have hyps: "StackTraceInThrowable ?F" "has_last_Java_frame (example_thread example_stack)"
    "heap_ok (empty_heap 10)"
    by (simp_all add: example_flags_def example_thread_def heap_ok_def empty_heap_def)
  have sv: "filter (\<lambda>f. \<not> suppressed ?F f)
              (dropWhile (is_constructor_frame ?T)
                (dropWhile (is_filler_frame ?T)
                  (logical_frames (last_frame (example_thread example_stack))))) =
            [(example_method ''run'' 11 False, 3),
             (example_method ''<init>'' 100 False, 9),
             (example_method ''fillInStackTrace'' 101 False, - 1)]"
    by code_simp
  note inst = elision_flags_monotone
    [of ?F ?T ?M 9 past_elision "snd one_chunk" "projr (fst ?step)" "snd ?step"
        example_stack "[]" "projr (fst ?walk)" "snd ?walk"
        "example_thread example_stack" None "empty_heap 10" "fst (snd ?R)" "snd (snd ?R)"]
  have lim: "limit ?F 0 ys = ys" for ys :: "(Method \<times> int) list"
    by (simp add: limit_def example_flags_def)
  have tc: "total_count past_elision = 0"
    by (simp add: past_elision_def)
  show ?thesis
    using inst traps_projr[OF stp] traps_projr[OF wlk] traps_result[OF ok]
      flags frame stp wlk ok hyps
    by (simp add: sv lim tc)
qed

end
